theory Spec2Isabelle
  imports Complex_Main "HOL-Library.Signed_Division" "HOL-Library.Word"
begin

section \<open>Crop geometry (crop\_n\_frame.cpp)\<close>

text \<open>
  The C++ struct \<^verbatim>\<open>CropRect { int x, y, w, h; bool valid = false; }\<close>.
  The fields carry the prefix \<open>rect_\<close> because a selector named \<open>x\<close> would capture
  every variable of that name. A C++ \<^verbatim>\<open>int\<close> is an \<open>int\<close> between \<open>INT_MIN\<close> and
  \<open>INT_MAX\<close>; where the program adds or subtracts two of them the result is wrapped.
\<close>

record CropRect =
  rect_x :: int
  rect_y :: int
  rect_w :: int
  rect_h :: int
  rect_valid :: bool

definition mk_rect :: "int \<Rightarrow> int \<Rightarrow> int \<Rightarrow> int \<Rightarrow> bool \<Rightarrow> CropRect" where
  "mk_rect a b c d v = \<lparr>rect_x = a, rect_y = b, rect_w = c, rect_h = d, rect_valid = v\<rparr>"

text \<open>The value \<^verbatim>\<open>{0,0,0,0,false}\<close> returned by every detector that finds nothing.\<close>

definition invalid_rect :: CropRect where
  "invalid_rect = mk_rect 0 0 0 0 False"

subsection \<open>Global configuration\<close>

definition TOLERANCE :: int where "TOLERANCE = 5"
definition MIN_CROP_RATIO :: real where "MIN_CROP_RATIO = 10 / 100"
definition DOWNSCALE :: real where "DOWNSCALE = 5 / 10"
definition FFMPEG_PROBES :: nat where "FFMPEG_PROBES = 3"
definition SAFE_MARGIN_PX :: int where "SAFE_MARGIN_PX = 4"

subsection \<open>Arithmetic of \<^verbatim>\<open>int\<close>\<close>

text \<open>
  A sum or difference of two \<^verbatim>\<open>int\<close> values that leaves the 32-bit range comes back
  wrapped around, as the two's complement hardware computes it.
\<close>

definition INT_MAX :: int where "INT_MAX = 2 ^ 31 - 1"
definition INT_MIN :: int where "INT_MIN = - (2 ^ 31)"

definition wrap32 :: "int \<Rightarrow> int" where
  "wrap32 v = (v + 2 ^ 31) mod 2 ^ 32 - 2 ^ 31"

definition in_int :: "int \<Rightarrow> bool" where
  "in_int v = (INT_MIN \<le> v \<and> v \<le> INT_MAX)"

subsection \<open>make\_even\<close>

text \<open>
  \<^verbatim>\<open>int make_even(int x) { return (x % 2 == 0) ? x : x + 1; }\<close>
  The C++ remainder truncates towards zero: it is \<open>smod\<close>.
\<close>

definition make_even :: "int \<Rightarrow> int" where
  "make_even v = (if v smod 2 = 0 then v else wrap32 (v + 1))"

subsection \<open>is\_good\_crop\<close>

text \<open>
  The two tests of \<^verbatim>\<open>is_good_crop\<close> compare an \<^verbatim>\<open>int\<close> with a product
  computed in \<^verbatim>\<open>double\<close>. The products are modelled in exact real arithmetic:
  \<open>1.0 - MIN_CROP_RATIO\<close> is \<open>9/10\<close> and \<open>0.05\<close> is \<open>5/100\<close>.
\<close>

definition significant_crop :: "CropRect \<Rightarrow> int \<Rightarrow> int \<Rightarrow> bool" where
  "significant_crop rect ow oh =
     (real_of_int (rect_w rect) < real_of_int ow * (1 - MIN_CROP_RATIO)
      \<or> real_of_int (rect_h rect) < real_of_int oh * (1 - MIN_CROP_RATIO))"

definition sensible_size :: "CropRect \<Rightarrow> int \<Rightarrow> int \<Rightarrow> bool" where
  "sensible_size rect ow oh =
     (real_of_int (rect_w rect) > (5 / 100) * real_of_int ow
      \<and> real_of_int (rect_h rect) > (5 / 100) * real_of_int oh)"

definition is_good_crop :: "CropRect \<Rightarrow> int \<Rightarrow> int \<Rightarrow> bool" where
  "is_good_crop rect ow oh =
     (if \<not> rect_valid rect \<or> rect_w rect \<le> 0 \<or> rect_h rect \<le> 0 then False
      else significant_crop rect ow oh \<and> sensible_size rect ow oh)"

subsection \<open>External collaborators\<close>

text \<open>
  The program talks to ffprobe, ffmpeg and the vision library through pipes,
  \<^verbatim>\<open>system()\<close> and library calls. Their answers for one batch run are collected in
  the record \<open>extern\<close>; every function below that calls out takes it as an argument.
  A \<^verbatim>\<open>fs::path\<close> is the list of its components, file contents are byte strings.
\<close>

type_synonym path = "string list"

datatype error = RuntimeError | InvalidArgument | OutOfRange | FilesystemError

text \<open>The pieces of the ffmpeg command line that \<^verbatim>\<open>crop_gpu\<close> assembles.\<close>

datatype input_opts =
    CuvidCudaOutput string
      \<comment> \<open>\<^verbatim>\<open>-c:v <dec> -hwaccel_device 0 -hwaccel_output_format cuda\<close>\<close>
  | HwaccelCuda
      \<comment> \<open>\<^verbatim>\<open>-hwaccel cuda -hwaccel_device 0 -hwaccel_output_format cuda\<close>\<close>
  | CuvidCrop string int int int int
      \<comment> \<open>\<^verbatim>\<open>-c:v <dec> -hwaccel_device 0 -crop <top>x<bottom>x<left>x<right>\<close>\<close>
  | NoInputOpts

datatype video_filter =
    CropCuda int int int int
      \<comment> \<open>\<^verbatim>\<open>crop_cuda=w=<w>:h=<h>:x=<x>:y=<y>,setsar=1:1,format=nv12\<close>\<close>
  | SetsarFormat
      \<comment> \<open>\<^verbatim>\<open>setsar=1:1,format=nv12\<close>\<close>
  | CropCpu int int int int
      \<comment> \<open>\<^verbatim>\<open>crop=<w>:<h>:<x>:<y>,setsar=1:1,format=nv12\<close>\<close>

record crop_cmd =
  cmd_input_opts :: input_opts
  cmd_src :: path
  cmd_vf :: video_filter
  cmd_dst :: path

text \<open>The rectangle type of the vision library, \<^verbatim>\<open>cv::Rect\<close>.\<close>

record cv_rect =
  cv_x :: int
  cv_y :: int
  cv_width :: int
  cv_height :: int

text \<open>
  What the vision library hands to the tail of \<^verbatim>\<open>detect_gradient\<close>: the capture
  did not open, no frame was sampled, or the bounding boxes of the external contours of
  the thresholded heat map, in contour order.
\<close>

datatype gradient_probe = CaptureFailed | NoFrames | Contours "cv_rect list"

record extern =
  ext_ffprobe :: "path \<Rightarrow> string \<Rightarrow> string option"
    \<comment> \<open>trimmed, lower-cased output of ffprobe for a key; \<open>None\<close>: \<^verbatim>\<open>popen()\<close> failed\<close>
  ext_stod :: "string \<Rightarrow> real option"
    \<comment> \<open>\<^verbatim>\<open>std::stod\<close>; \<open>None\<close>: it throws\<close>
  ext_cropdetect :: "path \<Rightarrow> nat \<Rightarrow> (nat \<times> nat \<times> nat \<times> nat) option option"
    \<comment> \<open>probe \<open>k\<close>: \<open>None\<close>: \<^verbatim>\<open>popen()\<close> failed; \<open>Some None\<close>: no match of
        \<^verbatim>\<open>crop=([0-9]+):([0-9]+):([0-9]+):([0-9]+)\<close>; otherwise the numbers spelt by the
        four groups of the last match\<close>
  ext_gradient :: "path \<Rightarrow> gradient_probe"
  ext_has_crop_cuda :: bool
    \<comment> \<open>the global \<^verbatim>\<open>HAS_CROP_CUDA\<close>\<close>
  ext_system :: "crop_cmd \<Rightarrow> int \<times> string option"
    \<comment> \<open>exit status of the ffmpeg crop command, and what it left at the destination
        path (\<open>None\<close>: it wrote nothing)\<close>

text \<open>The file system and the log of \<^verbatim>\<open>crop_gpu\<close> invocations.\<close>

record sys =
  files :: "path \<rightharpoonup> string"
  crop_calls :: "(path \<times> path \<times> CropRect \<times> int \<times> int) list"

definition CROPPED_DIR :: path where
  "CROPPED_DIR = [''..'', ''tmp'']"

subsection \<open>ffprobe\_val and std::stoi\<close>

definition ffprobe_val :: "extern \<Rightarrow> path \<Rightarrow> string \<Rightarrow> error + string" where
  "ffprobe_val E src_path key =
     (case ext_ffprobe E src_path key of
        None \<Rightarrow> Inl RuntimeError
      | Some out \<Rightarrow> Inr out)"

text \<open>
  \<^verbatim>\<open>std::stoi\<close> in base 10: leading white space is skipped, one sign is accepted,
  the longest run of digits is converted; no digit raises \<^verbatim>\<open>invalid_argument\<close>,
  a value outside \<^verbatim>\<open>int\<close> raises \<^verbatim>\<open>out_of_range\<close>.
\<close>

definition is_space :: "char \<Rightarrow> bool" where
  "is_space c = (c \<in> set [CHR '' '', CHR 0x09, CHR 0x0A, CHR 0x0B, CHR 0x0C, CHR 0x0D])"

definition is_digit :: "char \<Rightarrow> bool" where
  "is_digit c = (c \<in> set ''0123456789'')"

definition digit_val :: "char \<Rightarrow> int" where
  "digit_val c = int (of_char c) - 48"

fun digits_val :: "string \<Rightarrow> int \<Rightarrow> int" where
  "digits_val [] acc = acc"
| "digits_val (c # cs) acc = digits_val cs (acc * 10 + digit_val c)"

definition stoi :: "string \<Rightarrow> error + int" where
  "stoi str =
     (let s1 = dropWhile is_space str;
          neg = (s1 \<noteq> [] \<and> hd s1 = CHR ''-'');
          s2 = (if s1 \<noteq> [] \<and> (hd s1 = CHR ''-'' \<or> hd s1 = CHR ''+'') then tl s1 else s1);
          ds = takeWhile is_digit s2
      in if ds = [] then Inl InvalidArgument
         else let v = (if neg then - digits_val ds 0 else digits_val ds 0)
              in if v < INT_MIN \<or> INT_MAX < v then Inl OutOfRange else Inr v)"

text \<open>\<^verbatim>\<open>std::stoi\<close> on a regex group \<^verbatim>\<open>[0-9]+\<close>, given as the number it spells.\<close>

definition stoi_group :: "nat \<Rightarrow> error + int" where
  "stoi_group n = (if INT_MAX < int n then Inl OutOfRange else Inr (int n))"

subsection \<open>detect\_crop\_ffmpeg\<close>

text \<open>
  The probe loop (lines 143-176): one cropdetect run per probe, the last match of each
  run appended to \<open>rects\<close> in the order x, y, w, h = groups 3, 4, 1, 2.
\<close>

function probe_loop :: "extern \<Rightarrow> path \<Rightarrow> nat \<Rightarrow> CropRect list \<Rightarrow> error + CropRect list" where
  "probe_loop E src_path k rects =
     (if k < FFMPEG_PROBES then
        (case ext_cropdetect E src_path k of
           None \<Rightarrow> Inl RuntimeError
         | Some None \<Rightarrow> probe_loop E src_path (k + 1) rects
         | Some (Some (g1, g2, g3, g4)) \<Rightarrow>
             (case stoi_group g3 of Inl e \<Rightarrow> Inl e | Inr px \<Rightarrow>
             (case stoi_group g4 of Inl e \<Rightarrow> Inl e | Inr py \<Rightarrow>
             (case stoi_group g1 of Inl e \<Rightarrow> Inl e | Inr pw \<Rightarrow>
             (case stoi_group g2 of Inl e \<Rightarrow> Inl e | Inr ph \<Rightarrow>
                probe_loop E src_path (k + 1) (rects @ [mk_rect px py pw ph True]))))))
      else Inr rects)"
  by pat_completeness auto
termination
  by (relation "measure (\<lambda>(E, src_path, k, rects). FFMPEG_PROBES - k)") auto

declare probe_loop.simps [simp del]

text \<open>The aggregation loop (lines 184-189) over \<open>rects[1..]\<close>.\<close>

fun union_loop :: "CropRect list \<Rightarrow> int \<times> int \<times> int \<times> int \<Rightarrow> int \<times> int \<times> int \<times> int" where
  "union_loop [] acc = acc"
| "union_loop (r # rs) (min_x, min_y, max_x_plus_w, max_y_plus_h) =
     union_loop rs
       (min min_x (rect_x r), min min_y (rect_y r),
        max max_x_plus_w (wrap32 (rect_x r + rect_w r)),
        max max_y_plus_h (wrap32 (rect_y r + rect_h r)))"

text \<open>
  Lines 178-201, with the safety margin as a parameter. The first assignment of
  \<open>final_w\<close> and \<open>final_h\<close> (lines 193-194) is overwritten by lines 197-198.
\<close>

definition union_with_margin :: "int \<Rightarrow> CropRect list \<Rightarrow> CropRect" where
  "union_with_margin margin rects =
     (case rects of
        [] \<Rightarrow> invalid_rect
      | r0 # rest \<Rightarrow>
          (case union_loop rest
                  (rect_x r0, rect_y r0,
                   wrap32 (rect_x r0 + rect_w r0), wrap32 (rect_y r0 + rect_h r0)) of
             (min_x, min_y, max_x_plus_w, max_y_plus_h) \<Rightarrow>
               let final_x = max 0 (wrap32 (min_x - margin));
                   final_y = max 0 (wrap32 (min_y - margin));
                   final_w = wrap32 (wrap32 (max_x_plus_w + margin)
                                       - max 0 (wrap32 (min_x - margin)));
                   final_h = wrap32 (wrap32 (max_y_plus_h + margin)
                                       - max 0 (wrap32 (min_y - margin)))
               in mk_rect final_x final_y final_w final_h True))"

text \<open>Lines 130-140: the duration, 0 when ffprobe prints nothing or \<^verbatim>\<open>stod\<close> throws.\<close>

definition probe_duration :: "extern \<Rightarrow> path \<Rightarrow> error + real" where
  "probe_duration E src_path =
     (case ffprobe_val E src_path ''duration'' of
        Inl e \<Rightarrow> Inl e
      | Inr duration_str \<Rightarrow>
          Inr (if duration_str \<noteq> [] then
                 (case ext_stod E duration_str of Some d \<Rightarrow> d | None \<Rightarrow> 0)
               else 0))"

definition detect_crop_ffmpeg_margin :: "int \<Rightarrow> extern \<Rightarrow> path \<Rightarrow> error + CropRect" where
  "detect_crop_ffmpeg_margin margin E src_path =
     (case probe_duration E src_path of
        Inl e \<Rightarrow> Inl e
      | Inr duration \<Rightarrow>
          if duration = 0 then Inr invalid_rect
          else (case probe_loop E src_path 0 [] of
                  Inl e \<Rightarrow> Inl e
                | Inr rects \<Rightarrow> Inr (union_with_margin margin rects)))"

definition detect_crop_ffmpeg :: "extern \<Rightarrow> path \<Rightarrow> error + CropRect" where
  "detect_crop_ffmpeg = detect_crop_ffmpeg_margin SAFE_MARGIN_PX"

text \<open>
  The probe rectangles, as the specification speaks of them: the rectangle that each of
  the \<open>FFMPEG_PROBES\<close> probes reports, in the order of the probes; a probe without a
  match reports none.
\<close>

definition probe_rect :: "extern \<Rightarrow> path \<Rightarrow> nat \<Rightarrow> CropRect option" where
  "probe_rect E src_path k =
     (case ext_cropdetect E src_path k of
        Some (Some (g1, g2, g3, g4)) \<Rightarrow> Some (mk_rect (int g3) (int g4) (int g1) (int g2) True)
      | _ \<Rightarrow> None)"

definition probe_rects :: "extern \<Rightarrow> path \<Rightarrow> CropRect list" where
  "probe_rects E src_path = List.map_filter (probe_rect E src_path) [0..<FFMPEG_PROBES]"

text \<open>
  The raw union bounding box, as the specification words it: minimum x and minimum y for
  the top-left corner, maximum x+w and maximum y+h for the bottom-right corner.
\<close>

definition union_bbox :: "CropRect list \<Rightarrow> CropRect" where
  "union_bbox rects =
     mk_rect (Min (rect_x ` set rects)) (Min (rect_y ` set rects))
       (Max ((\<lambda>r. rect_x r + rect_w r) ` set rects) - Min (rect_x ` set rects))
       (Max ((\<lambda>r. rect_y r + rect_h r) ` set rects) - Min (rect_y ` set rects))
       True"


subsection \<open>detect\_gradient\<close>

text \<open>
  \<^verbatim>\<open>static_cast<int>\<close> of a \<^verbatim>\<open>double\<close> truncates towards zero.
\<close>

definition cast_int :: "real \<Rightarrow> int" where
  "cast_int v = (if 0 \<le> v then \<lfloor>v\<rfloor> else \<lceil>v\<rceil>)"

definition cv_area :: "cv_rect \<Rightarrow> int" where
  "cv_area r = cv_width r * cv_height r"

text \<open>Lines 268-276: the first bounding box of strictly largest area, starting from area 0
  and the default-constructed \<^verbatim>\<open>cv::Rect\<close>.\<close>

fun max_area_loop :: "cv_rect list \<Rightarrow> int \<Rightarrow> cv_rect \<Rightarrow> cv_rect" where
  "max_area_loop [] max_area best_rect = best_rect"
| "max_area_loop (r # rs) max_area best_rect =
     (if cv_area r > max_area then max_area_loop rs (cv_area r) r
      else max_area_loop rs max_area best_rect)"

definition detect_gradient :: "extern \<Rightarrow> path \<Rightarrow> int \<Rightarrow> int \<Rightarrow> CropRect" where
  "detect_gradient E src_path ow oh =
     (case ext_gradient E src_path of
        CaptureFailed \<Rightarrow> invalid_rect
      | NoFrames \<Rightarrow> invalid_rect
      | Contours contours \<Rightarrow>
          if contours = [] then invalid_rect
          else
            let best_rect = max_area_loop contours 0
                              \<lparr>cv_x = 0, cv_y = 0, cv_width = 0, cv_height = 0\<rparr>;
                s = 1 / DOWNSCALE
            in mk_rect (cast_int (real_of_int (cv_x best_rect) * s))
                       (cast_int (real_of_int (cv_y best_rect) * s))
                       (cast_int (real_of_int (cv_width best_rect) * s))
                       (cast_int (real_of_int (cv_height best_rect) * s))
                       True)"

subsection \<open>crop\_gpu\<close>

definition DECODER_MAP :: "string \<rightharpoonup> string" where
  "DECODER_MAP =
     [''h264'' \<mapsto> ''h264_cuvid'', ''hevc'' \<mapsto> ''hevc_cuvid'', ''vp9'' \<mapsto> ''vp9_cuvid'',
      ''av1'' \<mapsto> ''av1_cuvid'', ''mpeg2video'' \<mapsto> ''mpeg2_cuvid'']"

text \<open>Lines 298-344: the command line, from the codec name that ffprobe reported.\<close>

definition crop_gpu_command ::
  "bool \<Rightarrow> string \<Rightarrow> path \<Rightarrow> path \<Rightarrow> CropRect \<Rightarrow> int \<Rightarrow> int \<Rightarrow> crop_cmd" where
  "crop_gpu_command has_crop_cuda codec_name src_path dst_path rect ow oh =
     (let crop_w = make_even (rect_w rect);
          crop_h = make_even (rect_h rect);
          cuvid_decoder = (case DECODER_MAP codec_name of Some d \<Rightarrow> d | None \<Rightarrow> [])
      in \<lparr>cmd_input_opts =
            (if has_crop_cuda then
               (if cuvid_decoder \<noteq> [] then CuvidCudaOutput cuvid_decoder else HwaccelCuda)
             else if cuvid_decoder \<noteq> [] then
               (let top = rect_y rect;
                    bottom = wrap32 (oh - wrap32 (rect_y rect + rect_h rect));
                    left = rect_x rect;
                    right = wrap32 (ow - wrap32 (rect_x rect + rect_w rect))
                in CuvidCrop cuvid_decoder top bottom left right)
             else NoInputOpts),
          cmd_src = src_path,
          cmd_vf =
            (if has_crop_cuda then CropCuda crop_w crop_h (rect_x rect) (rect_y rect)
             else if cuvid_decoder \<noteq> [] then SetsarFormat
             else CropCpu crop_w crop_h (rect_x rect) (rect_y rect)),
          cmd_dst = dst_path\<rparr>)"

text \<open>
  The width and height that a command asks ffmpeg to cut out of an input of
  \<open>ow\<close> x \<open>oh\<close> pixels: the \<open>w\<close> and \<open>h\<close> of its crop filter, or what the
  margins of the decoder option \<^verbatim>\<open>-crop <top>x<bottom>x<left>x<right>\<close> leave.
\<close>

definition cropped_size :: "crop_cmd \<Rightarrow> int \<Rightarrow> int \<Rightarrow> int \<times> int" where
  "cropped_size cmd ow oh =
     (case cmd_vf cmd of
        CropCuda w h x y \<Rightarrow> (w, h)
      | CropCpu w h x y \<Rightarrow> (w, h)
      | SetsarFormat \<Rightarrow>
          (case cmd_input_opts cmd of
             CuvidCrop dec tp bt lf rt \<Rightarrow> (ow - lf - rt, oh - tp - bt)
           | _ \<Rightarrow> (ow, oh)))"

text \<open>
  \<^verbatim>\<open>crop_gpu\<close>: the call is logged, ffprobe is asked for the codec, the command runs
  and leaves what it leaves at the destination; a nonzero status raises
  \<^verbatim>\<open>runtime_error\<close>.
\<close>

definition crop_gpu ::
  "extern \<Rightarrow> path \<Rightarrow> path \<Rightarrow> CropRect \<Rightarrow> int \<Rightarrow> int \<Rightarrow> sys \<Rightarrow> (error + unit) \<times> sys" where
  "crop_gpu E src_path dst_path rect ow oh s =
     (let s1 = s\<lparr>crop_calls := crop_calls s @ [(src_path, dst_path, rect, ow, oh)]\<rparr>
      in case ffprobe_val E src_path ''codec_name'' of
           Inl e \<Rightarrow> (Inl e, s1)
         | Inr codec_name \<Rightarrow>
             (case ext_system E (crop_gpu_command (ext_has_crop_cuda E) codec_name
                                   src_path dst_path rect ow oh) of
                (ret, written) \<Rightarrow>
                  let s2 = (case written of
                              None \<Rightarrow> s1
                            | Some bytes \<Rightarrow> s1\<lparr>files := (files s1)(dst_path \<mapsto> bytes)\<rparr>)
                  in if ret \<noteq> 0 then (Inl RuntimeError, s2) else (Inr (), s2)))"

subsection \<open>handle\_video\_phase1\<close>

text \<open>
  \<^verbatim>\<open>fs::copy_file(from, to, overwrite_existing)\<close>: an error when \<open>from\<close> is not a
  file or when both paths name the same file, otherwise \<open>to\<close> holds the bytes of
  \<open>from\<close>.
\<close>

definition copy_file :: "path \<Rightarrow> path \<Rightarrow> sys \<Rightarrow> (error + unit) \<times> sys" where
  "copy_file from to s =
     (case files s from of
        None \<Rightarrow> (Inl FilesystemError, s)
      | Some bytes \<Rightarrow>
          if from = to then (Inl FilesystemError, s)
          else (Inr (), s\<lparr>files := (files s)(to \<mapsto> bytes)\<rparr>))"

text \<open>\<^verbatim>\<open>path::filename()\<close>: the last component, empty for the empty path.\<close>

definition filename :: "path \<Rightarrow> path" where
  "filename p = (if p = [] then [] else [last p])"

text \<open>
  \<^verbatim>\<open>path::extension()\<close> and \<^verbatim>\<open>path::stem()\<close>, which lines 636 and 703 use to pick
  the videos: the extension starts at the last period of the file name; the names
  \<^verbatim>\<open>.\<close> and \<^verbatim>\<open>..\<close>, a name without a period and a name whose only period comes
  first have none. The stem is the rest of the file name.
\<close>

definition extension_of :: "string \<Rightarrow> string" where
  "extension_of f =
     (if f = ''.'' \<or> f = ''..'' \<or> CHR ''.'' \<notin> set f then []
      else let e = CHR ''.'' # rev (takeWhile (\<lambda>c. c \<noteq> CHR ''.'') (rev f))
           in if length e = length f then [] else e)"

definition extension :: "path \<Rightarrow> string" where
  "extension p = (case filename p of [] \<Rightarrow> [] | f # fs \<Rightarrow> extension_of f)"

definition stem :: "path \<Rightarrow> string" where
  "stem p = (case filename p of [] \<Rightarrow> []
             | f # fs \<Rightarrow> take (length f - length (extension_of f)) f)"

text \<open>Lines 394-410, for the rectangle and the mode that detection settled on.\<close>

definition crop_or_copy ::
  "extern \<Rightarrow> path \<Rightarrow> path \<Rightarrow> CropRect \<Rightarrow> string \<Rightarrow> int \<Rightarrow> int \<Rightarrow> sys
     \<Rightarrow> (error + string) \<times> sys" where
  "crop_or_copy E src_path_fs dst_path_fs rect mode ow oh s =
     (if rect_valid rect \<and> is_good_crop rect ow oh then
        (case crop_gpu E src_path_fs dst_path_fs rect ow oh s of
           (Inr u, s1) \<Rightarrow> (Inr (''crop['' @ mode @ '']''), s1)
         | (Inl e, s1) \<Rightarrow>
             (case copy_file src_path_fs dst_path_fs s1 of
                (Inl e2, s2) \<Rightarrow> (Inl e2, s2)
              | (Inr u, s2) \<Rightarrow> (Inr ''copy_after_error'', s2)))
      else
        (case copy_file src_path_fs dst_path_fs s of
           (Inl e2, s2) \<Rightarrow> (Inl e2, s2)
         | (Inr u, s2) \<Rightarrow> (Inr ''copy'', s2)))"

text \<open>
  Lines 379-392: the rectangle and the mode the handler settles on. The gradient detector
  runs only when the cropdetect union fails the goodness test, and replaces it only when
  its own rectangle passes.
\<close>

definition choose_rect :: "extern \<Rightarrow> path \<Rightarrow> int \<Rightarrow> int \<Rightarrow> error + CropRect \<times> string" where
  "choose_rect E src_path ow oh =
     (case detect_crop_ffmpeg E src_path of
        Inl e \<Rightarrow> Inl e
      | Inr rect \<Rightarrow>
          if \<not> is_good_crop rect ow oh then
            (let alt_rect = detect_gradient E src_path ow oh
             in if is_good_crop alt_rect ow oh then Inr (alt_rect, ''gradient'')
                else Inr (rect, ''ffmpeg''))
          else Inr (rect, ''ffmpeg''))"

text \<open>
  Lines 359-373: the dimensions. An exception of \<^verbatim>\<open>std::stoi\<close> is caught and, like
  an empty answer of ffprobe, gives no dimensions; a failing \<^verbatim>\<open>popen()\<close> is not
  caught.
\<close>

definition probe_dimensions :: "extern \<Rightarrow> path \<Rightarrow> error + (int \<times> int) option" where
  "probe_dimensions E src_path =
     (case ffprobe_val E src_path ''width'' of
        Inl e \<Rightarrow> Inl e
      | Inr width_str \<Rightarrow>
          (case ffprobe_val E src_path ''height'' of
             Inl e \<Rightarrow> Inl e
           | Inr height_str \<Rightarrow>
               if width_str \<noteq> [] \<and> height_str \<noteq> [] then
                 (case stoi width_str of
                    Inl e \<Rightarrow> Inr None
                  | Inr ow \<Rightarrow>
                      (case stoi height_str of
                         Inl e \<Rightarrow> Inr None
                       | Inr oh \<Rightarrow> Inr (Some (ow, oh))))
               else Inr None))"

text \<open>
  The handler: no dimensions give the status \<^verbatim>\<open>error_dimensions\<close> and nothing else
  happens; otherwise the destination is \<^verbatim>\<open>CROPPED_DIR / src.filename()\<close>, and the
  chosen rectangle is cropped or the source copied.
\<close>

definition handle_video_phase1 :: "extern \<Rightarrow> path \<Rightarrow> sys \<Rightarrow> (error + string) \<times> sys" where
  "handle_video_phase1 E src_path_fs s =
     (case probe_dimensions E src_path_fs of
        Inl e \<Rightarrow> (Inl e, s)
      | Inr None \<Rightarrow> (Inr ''error_dimensions'', s)
      | Inr (Some (ow, oh)) \<Rightarrow>
          (let dst_path_fs = CROPPED_DIR @ filename src_path_fs
           in case choose_rect E src_path_fs ow oh of
                Inl e \<Rightarrow> (Inl e, s)
              | Inr (rect, mode) \<Rightarrow>
                  crop_or_copy E src_path_fs dst_path_fs rect mode ow oh s))"

subsection \<open>detect\_image\_crop\_cv\<close>

text \<open>
  A pixel is a \<^verbatim>\<open>cv::Vec3b\<close>, three bytes. A \<^verbatim>\<open>cv::Mat\<close> is its number of rows, its
  number of columns and the pixel at a row and a column, \<^verbatim>\<open>at<cv::Vec3b>(row, col)\<close>.
  \<^verbatim>\<open>img.col(x)\<close> and \<^verbatim>\<open>img.row(y)\<close> are given as the list of their pixels.
\<close>

type_synonym pixel = "8 word \<times> 8 word \<times> 8 word"

record Mat =
  mat_rows :: int
  mat_cols :: int
  mat_at :: "int \<Rightarrow> int \<Rightarrow> pixel"

definition mat_empty :: "Mat \<Rightarrow> bool" where
  "mat_empty img = (mat_rows img \<le> 0 \<or> mat_cols img \<le> 0)"

definition mat_col :: "Mat \<Rightarrow> int \<Rightarrow> pixel list" where
  "mat_col img c = map (\<lambda>i. mat_at img (int i) c) [0..<nat (mat_rows img)]"

definition mat_row :: "Mat \<Rightarrow> int \<Rightarrow> pixel list" where
  "mat_row img r = map (\<lambda>i. mat_at img r (int i)) [0..<nat (mat_cols img)]"

text \<open>
  \<^verbatim>\<open>cv::mean\<close> belongs to the vision library: it returns the mean of each channel as
  a \<^verbatim>\<open>double\<close>. It is modelled as the exact mean.
\<close>

definition cv_mean :: "pixel list \<Rightarrow> real \<times> real \<times> real" where
  "cv_mean line =
     (real_of_int (sum_list (map (\<lambda>(p0, p1, p2). uint p0) line)) / real (length line),
      real_of_int (sum_list (map (\<lambda>(p0, p1, p2). uint p1) line)) / real (length line),
      real_of_int (sum_list (map (\<lambda>(p0, p1, p2). uint p2) line)) / real (length line))"

text \<open>Lines 443-451: the loop over the pixels of a line, left at the first pixel whose
  summed deviation exceeds \<open>tol * 3\<close>.\<close>

fun blank_loop :: "real \<times> real \<times> real \<Rightarrow> int \<Rightarrow> pixel list \<Rightarrow> bool" where
  "blank_loop mean_val tol [] = True"
| "blank_loop (m0, m1, m2) tol ((p0, p1, p2) # ps) =
     (let diff_sum = \<bar>uint p0 - cast_int m0\<bar> + \<bar>uint p1 - cast_int m1\<bar>
                       + \<bar>uint p2 - cast_int m2\<bar>
      in if diff_sum > tol * 3 then False else blank_loop (m0, m1, m2) tol ps)"

definition is_blank_line :: "pixel list \<Rightarrow> int \<Rightarrow> bool" where
  "is_blank_line line_roi tol =
     (if line_roi = [] then True else blank_loop (cv_mean line_roi) tol line_roi)"

text \<open>
  The four scans of lines 457-460: \<^verbatim>\<open>for (x = from; x < n; ++x)\<close> and
  \<^verbatim>\<open>for (x = from; x >= 0; --x)\<close>, each left at the first line that is not blank;
  \<open>dflt\<close> is the value the variable had before the loop.
\<close>

function scan_up :: "(int \<Rightarrow> bool) \<Rightarrow> int \<Rightarrow> int \<Rightarrow> int \<Rightarrow> int" where
  "scan_up blank i n dflt =
     (if i < n then (if \<not> blank i then i else scan_up blank (i + 1) n dflt) else dflt)"
  by pat_completeness auto
termination
  by (relation "measure (\<lambda>(blank, i, n, dflt). nat (n - i))") auto

declare scan_up.simps [simp del]

function scan_down :: "(int \<Rightarrow> bool) \<Rightarrow> int \<Rightarrow> int \<Rightarrow> int" where
  "scan_down blank i dflt =
     (if i \<ge> 0 then (if \<not> blank i then i else scan_down blank (i - 1) dflt) else dflt)"
  by pat_completeness auto
termination
  by (relation "measure (\<lambda>(blank, i, dflt). nat (i + 1))") auto

declare scan_down.simps [simp del]

definition detect_image_crop_cv :: "Mat \<Rightarrow> int \<Rightarrow> CropRect" where
  "detect_image_crop_cv img tol =
     (if mat_empty img then invalid_rect
      else
        let h = mat_rows img;
            w = mat_cols img;
            x0 = scan_up (\<lambda>c. is_blank_line (mat_col img c) tol) 0 w w;
            x1 = scan_down (\<lambda>c. is_blank_line (mat_col img c) tol) (w - 1) 0;
            y0 = scan_up (\<lambda>r. is_blank_line (mat_row img r) tol) 0 h h;
            y1 = scan_down (\<lambda>r. is_blank_line (mat_row img r) tol) (h - 1) 0
        in if x0 \<ge> x1 \<or> y0 \<ge> y1 then invalid_rect
           else mk_rect x0 y0 (x1 - x0 + 1) (y1 - y0 + 1) True)"

text \<open>
  The blank-line test as the specification words it: every pixel's deviation from the
  mean colour of the line is within the tolerance in each channel.
\<close>

definition within_tolerance_per_channel :: "pixel list \<Rightarrow> int \<Rightarrow> bool" where
  "within_tolerance_per_channel line tol =
     (case cv_mean line of (m0, m1, m2) \<Rightarrow>
        list_all (\<lambda>(p0, p1, p2).
           \<bar>real_of_int (uint p0) - m0\<bar> \<le> real_of_int tol
           \<and> \<bar>real_of_int (uint p1) - m1\<bar> \<le> real_of_int tol
           \<and> \<bar>real_of_int (uint p2) - m2\<bar> \<le> real_of_int tol) line)"

section \<open>The hardware pipeline (crop/main.cpp)\<close>

subsection \<open>Presentation timestamps\<close>

text \<open>
  \<^verbatim>\<open>frame->pts\<close>, \<^verbatim>\<open>frame->pkt_dts\<close> and \<^verbatim>\<open>last_input_pts\<close> are 64-bit signed
  integers, modelled as \<open>int\<close>; the one arithmetic operation on them, \<open>last + 1\<close>, is
  wrapped to 64 bits. \<^verbatim>\<open>AV_NOPTS_VALUE\<close> is the least 64-bit value.
\<close>

definition AV_NOPTS_VALUE :: int where
  "AV_NOPTS_VALUE = - (2 ^ 63)"

definition wrap64 :: "int \<Rightarrow> int" where
  "wrap64 v = (v + 2 ^ 63) mod 2 ^ 64 - 2 ^ 63"

record frame_ts =
  pts :: int
  pkt_dts :: int

text \<open>Line 676: the timestamp a frame offers, its \<open>pts\<close> or else its \<open>pkt_dts\<close>.\<close>

definition effective_ts :: "frame_ts \<Rightarrow> int" where
  "effective_ts f = (if pts f = AV_NOPTS_VALUE then pkt_dts f else pts f)"

text \<open>
  Lines 676-686, for one frame received in the main loop: the \<open>pts\<close> the frame carries
  into the filter graph, and the new \<open>last_input_pts\<close>.
\<close>

definition decode_pts_step :: "int \<Rightarrow> frame_ts \<Rightarrow> int \<times> int" where
  "decode_pts_step last_input_pts f =
     (let p1 = effective_ts f
      in if p1 \<noteq> AV_NOPTS_VALUE then
           (let p2 = (if last_input_pts \<noteq> AV_NOPTS_VALUE \<and> p1 \<le> last_input_pts
                      then wrap64 (last_input_pts + 1) else p1)
            in (p2, p2))
         else (p1, last_input_pts))"

fun decode_loop_pts :: "int \<Rightarrow> frame_ts list \<Rightarrow> int list \<times> int" where
  "decode_loop_pts last_input_pts [] = ([], last_input_pts)"
| "decode_loop_pts last_input_pts (f # fs) =
     (case decode_pts_step last_input_pts f of
        (p, last1) \<Rightarrow>
          (case decode_loop_pts last1 fs of (out, last2) \<Rightarrow> (p # out, last2)))"

text \<open>Lines 763-766, for one frame drained while the decoder is flushed.\<close>

definition flush_pts_step :: "int \<Rightarrow> frame_ts \<Rightarrow> int \<times> int" where
  "flush_pts_step last_input_pts f =
     (if pts f = AV_NOPTS_VALUE \<and> last_input_pts \<noteq> AV_NOPTS_VALUE then
        (wrap64 (last_input_pts + 1), wrap64 (last_input_pts + 1))
      else (pts f, last_input_pts))"

text \<open>
  The timestamps that enter the filter graph over one run: \<open>last_input_pts\<close> starts as
  \<^verbatim>\<open>AV_NOPTS_VALUE\<close> (line 638), the frames of the main loop come first. The flush
  loop \<^verbatim>\<open>while (ret >= 0)\<close> of lines 754-787 hands on at most one frame: after its
  inner sink loop \<open>ret\<close> is \<^verbatim>\<open>EAGAIN\<close> or \<^verbatim>\<open>EOF\<close>, both negative.
\<close>

definition pipeline_pts :: "frame_ts list \<Rightarrow> frame_ts option \<Rightarrow> int list" where
  "pipeline_pts decoded flushed =
     (case decode_loop_pts AV_NOPTS_VALUE decoded of
        (out1, last1) \<Rightarrow>
          (case flushed of
             None \<Rightarrow> out1
           | Some f \<Rightarrow> out1 @ [fst (flush_pts_step last1 f)]))"

text \<open>The timestamps that leave the main loop.\<close>

definition decoded_pts :: "frame_ts list \<Rightarrow> int list" where
  "decoded_pts frames = fst (decode_loop_pts AV_NOPTS_VALUE frames)"

subsection \<open>Resources of the pipeline\<close>

text \<open>
  Every pointer of \<^verbatim>\<open>main\<close>, \<^verbatim>\<open>init_filters\<close> and \<^verbatim>\<open>encode_write_frame\<close> that owns
  something is a slot: the variable itself, or a field such as
  \<^verbatim>\<open>decoder_ctx->hw_frames_ctx\<close>. \<open>Frame_data\<close>, \<open>Filt_frame_data\<close>, \<open>Packet_data\<close> and
  \<open>Enc_pkt_data\<close> stand for the buffers a frame or packet refers to once the library has
  filled it.
\<close>

datatype slot =
    Input_format_ctx | Decoder_ctx | Decoder_hw_device_ctx | Decoder_hw_frames_ctx
  | Decoder_hw_frames_ctx_ref | Hw_device_ctx_ref_global | Frames_ref
  | Output_format_ctx_global | Output_pb | Encoder_ctx_global | Encoder_hw_frames_ctx
  | New_enc_hw_frames_ctx | Temp_dec_ctx_for_filter | Temp_hw_frames_ctx
  | Filter_graph_global | Outputs | Inputs | Src_par | Src_par_hw_frames_ctx
  | Frame | Frame_data | Frame_hw_frames_ctx
  | Filt_frame | Filt_frame_data | Filt_frame_hw_frames_ctx
  | Packet | Packet_data | Enc_pkt | Enc_pkt_data

datatype kind =
    HwDeviceRef | HwFramesRef | CodecContext | Container | IoContext | FilterGraph
  | FilterInOut | SrcParameters | FrameStruct | FrameData | PacketStruct | PacketData

fun kind_of :: "slot \<Rightarrow> kind" where
  "kind_of Input_format_ctx = Container"
| "kind_of Decoder_ctx = CodecContext"
| "kind_of Decoder_hw_device_ctx = HwDeviceRef"
| "kind_of Decoder_hw_frames_ctx = HwFramesRef"
| "kind_of Decoder_hw_frames_ctx_ref = HwFramesRef"
| "kind_of Hw_device_ctx_ref_global = HwDeviceRef"
| "kind_of Frames_ref = HwFramesRef"
| "kind_of Output_format_ctx_global = Container"
| "kind_of Output_pb = IoContext"
| "kind_of Encoder_ctx_global = CodecContext"
| "kind_of Encoder_hw_frames_ctx = HwFramesRef"
| "kind_of New_enc_hw_frames_ctx = HwFramesRef"
| "kind_of Temp_dec_ctx_for_filter = CodecContext"
| "kind_of Temp_hw_frames_ctx = HwFramesRef"
| "kind_of Filter_graph_global = FilterGraph"
| "kind_of Outputs = FilterInOut"
| "kind_of Inputs = FilterInOut"
| "kind_of Src_par = SrcParameters"
| "kind_of Src_par_hw_frames_ctx = HwFramesRef"
| "kind_of Frame = FrameStruct"
| "kind_of Frame_data = FrameData"
| "kind_of Frame_hw_frames_ctx = HwFramesRef"
| "kind_of Filt_frame = FrameStruct"
| "kind_of Filt_frame_data = FrameData"
| "kind_of Filt_frame_hw_frames_ctx = HwFramesRef"
| "kind_of Packet = PacketStruct"
| "kind_of Packet_data = PacketData"
| "kind_of Enc_pkt = PacketStruct"
| "kind_of Enc_pkt_data = PacketData"

text \<open>
  The trace of one run: the slots that hold something, and per kind of resource the
  number of acquisitions, of releases, and of references lost because a slot that still
  held one was overwritten.
\<close>

record pstate =
  held :: "slot set"
  acquired :: "kind \<Rightarrow> nat"
  released :: "kind \<Rightarrow> nat"
  leaked :: "kind \<Rightarrow> nat"


text \<open>A slot receives a new resource, as from \<^verbatim>\<open>av_buffer_ref\<close> or an allocation.\<close>

definition acquire :: "slot \<Rightarrow> pstate \<Rightarrow> pstate" where
  "acquire sl s =
     (if sl \<in> held s then
        s\<lparr>acquired := (acquired s)(kind_of sl := acquired s (kind_of sl) + 1),
          leaked := (leaked s)(kind_of sl := leaked s (kind_of sl) + 1)\<rparr>
      else
        s\<lparr>held := insert sl (held s),
          acquired := (acquired s)(kind_of sl := acquired s (kind_of sl) + 1)\<rparr>)"

text \<open>
  The free and unref functions of the library take the address of the pointer, do nothing
  when it is null and set it to null: \<^verbatim>\<open>av_buffer_unref\<close>, \<^verbatim>\<open>av_freep\<close>,
  \<^verbatim>\<open>avfilter_inout_free\<close>, \<^verbatim>\<open>avfilter_graph_free\<close>, \<^verbatim>\<open>avformat_close_input\<close>,
  \<^verbatim>\<open>avio_closep\<close>.
\<close>

definition release :: "slot \<Rightarrow> pstate \<Rightarrow> pstate" where
  "release sl s =
     (if sl \<in> held s then
        s\<lparr>held := held s - {sl},
          released := (released s)(kind_of sl := released s (kind_of sl) + 1)\<rparr>
      else s)"

text \<open>The pointer assignment \<open>b = a\<close> after which \<open>a\<close> goes out of scope (line 604).\<close>

definition move_ref :: "slot \<Rightarrow> slot \<Rightarrow> pstate \<Rightarrow> pstate" where
  "move_ref a b s =
     (let s1 = (if b \<in> held s then
                  s\<lparr>held := held s - {b},
                    leaked := (leaked s)(kind_of b := leaked s (kind_of b) + 1)\<rparr>
                else s)
      in if a \<in> held s1 then s1\<lparr>held := insert b (held s1 - {a})\<rparr> else s1)"

text \<open>\<^verbatim>\<open>av_frame_unref\<close> and \<^verbatim>\<open>av_frame_free\<close>, for a frame and the slots of its
  buffers and of its \<open>hw_frames_ctx\<close>.\<close>

definition av_frame_unref :: "slot \<Rightarrow> slot \<Rightarrow> pstate \<Rightarrow> pstate" where
  "av_frame_unref data hw s = release data (release hw s)"

definition av_frame_free :: "slot \<Rightarrow> slot \<Rightarrow> slot \<Rightarrow> pstate \<Rightarrow> pstate" where
  "av_frame_free fr data hw s =
     (if fr \<in> held s then release fr (av_frame_unref data hw s) else s)"

definition av_packet_free :: "slot \<Rightarrow> slot \<Rightarrow> pstate \<Rightarrow> pstate" where
  "av_packet_free pkt data s =
     (if pkt \<in> held s then release pkt (release data s) else s)"

text \<open>\<^verbatim>\<open>avcodec_free_context\<close> drops the references the context still holds.\<close>

definition avcodec_free_context :: "slot \<Rightarrow> slot list \<Rightarrow> pstate \<Rightarrow> pstate" where
  "avcodec_free_context ctx refs s =
     (if ctx \<in> held s then release ctx (fold release refs s) else s)"

subsection \<open>What the library answers\<close>

datatype send_result = SendOk | SendEof | SendAgain | SendError
datatype recv_end = RecvAgain | RecvEof | RecvError

text \<open>One call of \<^verbatim>\<open>encode_write_frame\<close>: whether \<^verbatim>\<open>av_packet_alloc\<close> succeeds, the
  result of \<^verbatim>\<open>avcodec_send_frame\<close>, for each packet received whether writing it
  succeeds, and what ends the receive loop.\<close>

record enc_ev =
  en_alloc_ok :: bool
  en_send :: send_result
  en_writes :: "bool list"
  en_end :: recv_end

text \<open>One frame taken from the buffer sink: whether it arrives with a \<open>hw_frames_ctx\<close>,
  whether its format is \<^verbatim>\<open>AV_PIX_FMT_CUDA\<close>, whether \<^verbatim>\<open>av_buffer_ref\<close> succeeds, and
  the encoding of the frame.\<close>

record filt_ev =
  fl_hw_set :: bool
  fl_cuda :: bool
  fl_ref_ok :: bool
  fl_enc :: enc_ev

text \<open>One frame received from the decoder, the result of feeding it to the buffer source,
  the frames the sink then yields, and whether the sink ends with an error.\<close>

record frame_ev =
  fr_hw_set :: bool
  fr_cuda :: bool
  fr_ref_ok :: bool
  fr_feed_ok :: bool
  fr_sink :: "filt_ev list"
  fr_sink_error :: bool

text \<open>One packet read from the input.\<close>

record packet_ev =
  pk_video :: bool
  pk_send_ok :: bool
  pk_frames :: "frame_ev list"
  pk_recv_error :: bool

record answers =
  open_input_ok :: bool
  find_stream_info_ok :: bool
  has_video_stream :: bool
  decoder_found :: bool
  is_hw_decoder :: bool
  alloc_decoder_ok :: bool
  params_to_ctx_ok :: bool
  hwdevice_create_ok :: bool
  ref_device_ok :: bool
  open_decoder_ok :: bool
  open_sets_hw_frames :: bool
  pix_fmt_cuda :: bool
  hwframe_alloc_ok :: bool
  hwframe_init_ok :: bool
  ref_frames_ok :: bool
  ref_frames_keep_ok :: bool
  alloc_output_ok :: bool
  find_encoder_ok :: bool
  new_stream_ok :: bool
  alloc_encoder_ok :: bool
  alloc_temp_ok :: bool
  ref_temp_ok :: bool
  alloc_outputs_ok :: bool
  alloc_inputs_ok :: bool
  alloc_graph_ok :: bool
  filter_pix_fmt_none :: bool
  create_src_ok :: bool
  alloc_src_par_ok :: bool
  ref_src_par_ok :: bool
  params_set_ok :: bool
  create_sink_ok :: bool
  sink_fmts_ok :: bool
  parse_ok :: bool
  parse_keeps_inputs :: bool
  parse_keeps_outputs :: bool
  config_ok :: bool
  enc_hwframe_alloc_ok :: bool
  enc_hwframe_init_ok :: bool
  open_encoder_ok :: bool
  params_from_ctx_ok :: bool
  nofile :: bool
  avio_open_ok :: bool
  write_header_ok :: bool
  alloc_frame_ok :: bool
  alloc_filt_frame_ok :: bool
  alloc_packet_ok :: bool
  packets :: "packet_ev list"
  flush_send_ok :: bool
  flush_frame :: "frame_ev option"
  flush_sink :: "filt_ev list"
  flush_enc :: enc_ev

subsection \<open>init\_filters\<close>

text \<open>The label \<^verbatim>\<open>end:\<close> of \<^verbatim>\<open>init_filters\<close> (lines 209-218).\<close>

definition init_filters_end :: "pstate \<Rightarrow> pstate" where
  "init_filters_end s =
     (let s1 = (if Src_par \<in> held s
                then release Src_par (release Src_par_hw_frames_ctx s) else s);
          s2 = release Inputs s1
      in release Outputs s2)"

text \<open>
  \<^verbatim>\<open>init_filters\<close>; the result is \<open>True\<close> when it returns a value that is not negative.
  \<open>Temp_hw_frames_ctx\<close> is \<^verbatim>\<open>dec_ctx_for_filter_props->hw_frames_ctx\<close>. The descriptor
  of \<^verbatim>\<open>AV_PIX_FMT_CUDA\<close> carries \<^verbatim>\<open>AV_PIX_FMT_FLAG_HWACCEL\<close>, so the test of line 138
  succeeds. \<^verbatim>\<open>avfilter_graph_parse_ptr\<close> links the two lists into the graph and sets
  the pointers to what stays open.
\<close>

definition init_filters :: "answers \<Rightarrow> pstate \<Rightarrow> bool \<times> pstate" where
  "init_filters A s0 =
     (let s1 = (if alloc_outputs_ok A then acquire Outputs s0 else s0);
          s2 = (if alloc_inputs_ok A then acquire Inputs s1 else s1);
          s3 = (if alloc_graph_ok A then acquire Filter_graph_global s2 else s2)
      in if \<not> alloc_outputs_ok A \<or> \<not> alloc_inputs_ok A \<or> \<not> alloc_graph_ok A
           then (False, init_filters_end s3)
         else if filter_pix_fmt_none A then (False, init_filters_end s3)
         else if \<not> create_src_ok A then (False, init_filters_end s3)
         else if \<not> alloc_src_par_ok A then (False, init_filters_end s3)
         else
           let s4 = acquire Src_par s3
           in if Temp_hw_frames_ctx \<in> held s4 then
                (if \<not> ref_src_par_ok A then (False, init_filters_end s4)
                 else
                   let s5 = acquire Src_par_hw_frames_ctx s4
                   in if \<not> params_set_ok A then (False, init_filters_end s5)
                      else if \<not> create_sink_ok A then (False, init_filters_end s5)
                      else if \<not> sink_fmts_ok A then (False, init_filters_end s5)
                      else
                        let s6 = (if parse_keeps_inputs A then s5 else release Inputs s5);
                            s7 = (if parse_keeps_outputs A then s6 else release Outputs s6)
                        in if \<not> parse_ok A then (False, init_filters_end s7)
                           else if \<not> config_ok A then (False, init_filters_end s7)
                           else (True, init_filters_end s7))
              else (False, init_filters_end s4))"

subsection \<open>The try block of main, up to the transcoding loop\<close>

text \<open>Lines 335-372: the input container, its streams and the decoder.\<close>

definition stage_input :: "answers \<Rightarrow> pstate \<Rightarrow> (error + unit) \<times> pstate" where
  "stage_input A s0 =
     (if \<not> open_input_ok A then (Inl RuntimeError, s0)
      else
        let s1 = acquire Input_format_ctx s0
        in if \<not> find_stream_info_ok A then (Inl RuntimeError, s1)
           else if has_video_stream A \<and> \<not> decoder_found A then (Inl RuntimeError, s1)
           else if \<not> has_video_stream A then (Inl RuntimeError, s1)
           else (Inr (), s1))"

text \<open>Lines 375-410: the decoder context and the device context of a hardware decoder.\<close>

definition stage_decoder_alloc :: "answers \<Rightarrow> pstate \<Rightarrow> (error + unit) \<times> pstate" where
  "stage_decoder_alloc A s0 =
     (if \<not> alloc_decoder_ok A then (Inl RuntimeError, s0)
      else
        let s1 = acquire Decoder_ctx s0
        in if \<not> params_to_ctx_ok A then (Inl RuntimeError, s1)
           else if is_hw_decoder A then
             (if \<not> hwdevice_create_ok A then (Inl RuntimeError, s1)
              else
                let s2 = acquire Hw_device_ctx_ref_global s1
                in if \<not> ref_device_ok A
                   then (Inl RuntimeError, release Hw_device_ctx_ref_global s2)
                   else (Inr (), acquire Decoder_hw_device_ctx s2))
           else (Inr (), s1))"

text \<open>Lines 419-443: the frame pool allocated by hand when the decoder has none.\<close>

definition decoder_frames_pool :: "answers \<Rightarrow> pstate \<Rightarrow> (error + unit) \<times> pstate" where
  "decoder_frames_pool A s0 =
     (if is_hw_decoder A \<and> pix_fmt_cuda A \<and> Decoder_hw_frames_ctx \<notin> held s0 then
        (if \<not> hwframe_alloc_ok A then (Inl RuntimeError, s0)
         else
           let s1 = acquire Frames_ref s0
           in if \<not> hwframe_init_ok A then (Inl RuntimeError, release Frames_ref s1)
              else
                let s2 = (if ref_frames_ok A then acquire Decoder_hw_frames_ctx s1 else s1)
                in (Inr (), release Frames_ref s2))
      else (Inr (), s0))"

text \<open>Lines 413-463: \<^verbatim>\<open>avcodec_open2\<close>, which may give the decoder a frame pool, the
  pool allocated by hand, and the extra reference of line 452.\<close>

definition stage_decoder_open :: "answers \<Rightarrow> pstate \<Rightarrow> (error + unit) \<times> pstate" where
  "stage_decoder_open A s0 =
     (if \<not> open_decoder_ok A then (Inl RuntimeError, s0)
      else
        let s1 = (if open_sets_hw_frames A then acquire Decoder_hw_frames_ctx s0 else s0)
        in case decoder_frames_pool A s1 of
             (Inl e, s2) \<Rightarrow> (Inl e, s2)
           | (Inr u, s2) \<Rightarrow>
               if is_hw_decoder A then
                 (if pix_fmt_cuda A then
                    (if Decoder_hw_frames_ctx \<in> held s2 then
                       (Inr (), if ref_frames_keep_ok A
                                then acquire Decoder_hw_frames_ctx_ref s2 else s2)
                     else (Inl RuntimeError, s2))
                  else (Inl RuntimeError, s2))
               else (Inr (), s2))"

text \<open>Lines 483-528: the output container and the encoder context.\<close>

definition stage_output :: "answers \<Rightarrow> pstate \<Rightarrow> (error + unit) \<times> pstate" where
  "stage_output A s0 =
     (if \<not> alloc_output_ok A then (Inl RuntimeError, s0)
      else
        let s1 = acquire Output_format_ctx_global s0
        in if \<not> find_encoder_ok A then (Inl RuntimeError, s1)
           else if \<not> new_stream_ok A then (Inl RuntimeError, s1)
           else if \<not> alloc_encoder_ok A then (Inl RuntimeError, s1)
           else (Inr (), acquire Encoder_ctx_global s1))"

text \<open>Lines 577-585: \<^verbatim>\<open>init_filters\<close> and the disposal of the temporary context.\<close>

definition run_init_filters :: "answers \<Rightarrow> pstate \<Rightarrow> (error + unit) \<times> pstate" where
  "run_init_filters A s0 =
     (case init_filters A s0 of
        (False, s1) \<Rightarrow>
          (Inl RuntimeError,
           avcodec_free_context Temp_dec_ctx_for_filter [Temp_hw_frames_ctx]
             (release Temp_hw_frames_ctx s1))
      | (True, s1) \<Rightarrow>
          (Inr (),
           avcodec_free_context Temp_dec_ctx_for_filter [Temp_hw_frames_ctx]
             (release Temp_hw_frames_ctx s1)))"

text \<open>Lines 548-585: the temporary context that describes the decoder to the filters.\<close>

definition stage_filters :: "answers \<Rightarrow> pstate \<Rightarrow> (error + unit) \<times> pstate" where
  "stage_filters A s0 =
     (if \<not> alloc_temp_ok A then (Inl RuntimeError, s0)
      else
        let s1 = acquire Temp_dec_ctx_for_filter s0
        in if is_hw_decoder A then
             (if Decoder_hw_frames_ctx \<in> held s1 then
                (if \<not> ref_temp_ok A
                 then (Inl RuntimeError,
                       avcodec_free_context Temp_dec_ctx_for_filter [Temp_hw_frames_ctx] s1)
                 else run_init_filters A (acquire Temp_hw_frames_ctx s1))
              else run_init_filters A s1)
           else run_init_filters A s1)"

text \<open>
  Lines 589-642: the frame pool of the encoder, the encoder, the output file, the two
  frames and the packet. \<open>encoder_ctx_global->pix_fmt\<close> is \<^verbatim>\<open>AV_PIX_FMT_CUDA\<close> since
  line 500.
\<close>

definition stage_encoder :: "answers \<Rightarrow> pstate \<Rightarrow> (error + unit) \<times> pstate" where
  "stage_encoder A s0 =
     (if \<not> enc_hwframe_alloc_ok A then (Inl RuntimeError, s0)
      else
        let s1 = acquire New_enc_hw_frames_ctx s0
        in if \<not> enc_hwframe_init_ok A
           then (Inl RuntimeError, release New_enc_hw_frames_ctx s1)
           else
             let s2 = move_ref New_enc_hw_frames_ctx Encoder_hw_frames_ctx s1
             in if \<not> open_encoder_ok A then (Inl RuntimeError, s2)
                else if \<not> params_from_ctx_ok A then (Inl RuntimeError, s2)
                else if \<not> nofile A \<and> \<not> avio_open_ok A then (Inl RuntimeError, s2)
                else
                  let s3 = (if \<not> nofile A then acquire Output_pb s2 else s2)
                  in if \<not> write_header_ok A then (Inl RuntimeError, s3)
                     else
                       let s4 = (if alloc_frame_ok A then acquire Frame s3 else s3);
                           s5 = (if alloc_filt_frame_ok A then acquire Filt_frame s4 else s4)
                       in if \<not> alloc_frame_ok A \<or> \<not> alloc_filt_frame_ok A
                          then (Inl RuntimeError, s5)
                          else if \<not> alloc_packet_ok A then (Inl RuntimeError, s5)
                          else (Inr (), acquire Packet s5))"

subsection \<open>encode\_write\_frame\<close>

text \<open>
  The receive loop (lines 244-266), one step per packet the encoder yields.
  \<^verbatim>\<open>av_interleaved_write_frame\<close> takes the reference of the packet, so the
  \<^verbatim>\<open>av_packet_unref\<close> after it finds the packet blank. The result is \<open>False\<close> when a
  write fails.
\<close>

fun encode_packets :: "bool list \<Rightarrow> pstate \<Rightarrow> bool \<times> pstate" where
  "encode_packets [] s = (True, s)"
| "encode_packets (write_ok # ws) s =
     (let s1 = acquire Enc_pkt_data s;
          s2 = release Enc_pkt_data s1
      in if \<not> write_ok then (False, s2)
         else encode_packets ws (release Enc_pkt_data s2))"

text \<open>\<^verbatim>\<open>encode_write_frame\<close>; the result is \<open>True\<close> when it returns 0.\<close>

definition encode_write_frame :: "enc_ev \<Rightarrow> bool \<Rightarrow> pstate \<Rightarrow> bool \<times> pstate" where
  "encode_write_frame ev flush s0 =
     (if \<not> en_alloc_ok ev then (False, s0)
      else
        let s1 = acquire Enc_pkt s0;
            tolerated = ((en_send ev = SendEof \<and> flush) \<or> (en_send ev = SendAgain \<and> \<not> flush))
        in if en_send ev \<noteq> SendOk \<and> \<not> tolerated
           then (False, av_packet_free Enc_pkt Enc_pkt_data s1)
           else
             (case encode_packets (en_writes ev) s1 of
                (False, s2) \<Rightarrow> (False, av_packet_free Enc_pkt Enc_pkt_data s2)
              | (True, s2) \<Rightarrow>
                  (case en_end ev of
                     RecvError \<Rightarrow> (False, av_packet_free Enc_pkt Enc_pkt_data s2)
                   | RecvAgain \<Rightarrow> (\<not> flush, av_packet_free Enc_pkt Enc_pkt_data s2)
                   | RecvEof \<Rightarrow> (flush, av_packet_free Enc_pkt Enc_pkt_data s2))))"

subsection \<open>The transcoding loop\<close>

datatype flow = Proceed | GotoEnd

text \<open>A frame arrives from the buffer sink and, when it is a CUDA frame without
  \<open>hw_frames_ctx\<close>, gets a reference to the pool of the encoder (lines 718-720).\<close>

definition take_sink_frame :: "filt_ev \<Rightarrow> pstate \<Rightarrow> pstate" where
  "take_sink_frame ev s0 =
     (let s1 = acquire Filt_frame_data s0;
          s2 = (if fl_hw_set ev then acquire Filt_frame_hw_frames_ctx s1 else s1)
      in if fl_cuda ev \<and> Filt_frame_hw_frames_ctx \<notin> held s2
            \<and> Encoder_hw_frames_ctx \<in> held s2
         then (if fl_ref_ok ev then acquire Filt_frame_hw_frames_ctx s2 else s2)
         else s2)"

text \<open>The sink loop of the main loop (lines 703-737); the flag says whether the sink ends
  with an error rather than with \<^verbatim>\<open>EAGAIN\<close> or \<^verbatim>\<open>EOF\<close>.\<close>

fun sink_loop :: "filt_ev list \<Rightarrow> bool \<Rightarrow> pstate \<Rightarrow> flow \<times> pstate" where
  "sink_loop [] sink_error s = (if sink_error then GotoEnd else Proceed, s)"
| "sink_loop (ev # evs) sink_error s =
     (case encode_write_frame (fl_enc ev) False (take_sink_frame ev s) of
        (False, s1) \<Rightarrow>
          (GotoEnd, av_frame_unref Filt_frame_data Filt_frame_hw_frames_ctx s1)
      | (True, s1) \<Rightarrow>
          sink_loop evs sink_error
            (av_frame_unref Filt_frame_data Filt_frame_hw_frames_ctx s1))"

text \<open>The sink loops of the two flushes (lines 773-785 and 795-808), where the result of
  \<^verbatim>\<open>encode_write_frame\<close> is not looked at.\<close>

fun sink_loop_flush :: "filt_ev list \<Rightarrow> pstate \<Rightarrow> pstate" where
  "sink_loop_flush [] s = s"
| "sink_loop_flush (ev # evs) s =
     sink_loop_flush evs
       (av_frame_unref Filt_frame_data Filt_frame_hw_frames_ctx
          (snd (encode_write_frame (fl_enc ev) False (take_sink_frame ev s))))"

text \<open>\<^verbatim>\<open>avcodec_receive_frame\<close> unrefs the frame before anything else; on success the
  frame refers to new buffers and, when the decoder supplies it, to a frame pool.\<close>

definition receive_frame :: "frame_ev \<Rightarrow> pstate \<Rightarrow> pstate" where
  "receive_frame ev s0 =
     (let s1 = av_frame_unref Frame_data Frame_hw_frames_ctx s0;
          s2 = acquire Frame_data s1
      in if fr_hw_set ev then acquire Frame_hw_frames_ctx s2 else s2)"

text \<open>Lines 662-673 and 759-761: a CUDA frame without \<open>hw_frames_ctx\<close> gets a reference
  to the pool of the decoder.\<close>

definition repair_frame :: "frame_ev \<Rightarrow> pstate \<Rightarrow> pstate" where
  "repair_frame ev s =
     (if fr_cuda ev \<and> Frame_hw_frames_ctx \<notin> held s then
        (if Decoder_hw_frames_ctx \<in> held s then
           (if fr_ref_ok ev then acquire Frame_hw_frames_ctx s else s)
         else s)
      else s)"

text \<open>The receive loop of one packet (lines 653-741); the flag says whether the decoder
  ends it with an error rather than with \<^verbatim>\<open>EAGAIN\<close> or \<^verbatim>\<open>EOF\<close>.\<close>

fun frame_loop :: "frame_ev list \<Rightarrow> bool \<Rightarrow> pstate \<Rightarrow> flow \<times> pstate" where
  "frame_loop [] recv_error s =
     (if recv_error then GotoEnd else Proceed,
      av_frame_unref Frame_data Frame_hw_frames_ctx s)"
| "frame_loop (ev # evs) recv_error s =
     (let s1 = repair_frame ev (receive_frame ev s)
      in if \<not> fr_feed_ok ev
         then (Proceed, av_frame_unref Frame_data Frame_hw_frames_ctx s1)
         else
           (case sink_loop (fr_sink ev) (fr_sink_error ev) s1 of
              (GotoEnd, s2) \<Rightarrow> (GotoEnd, s2)
            | (Proceed, s2) \<Rightarrow>
                frame_loop evs recv_error
                  (av_frame_unref Frame_data Frame_hw_frames_ctx s2)))"

text \<open>The main loop (lines 645-744): it ends when \<^verbatim>\<open>av_read_frame\<close> fails, at the
  \<^verbatim>\<open>break\<close> of line 650 and at every \<^verbatim>\<open>goto end_processing_loop\<close>.\<close>

fun packet_loop :: "packet_ev list \<Rightarrow> pstate \<Rightarrow> pstate" where
  "packet_loop [] s = s"
| "packet_loop (ev # evs) s =
     (let s1 = acquire Packet_data s
      in if pk_video ev then
           (if \<not> pk_send_ok ev then s1
            else
              (case frame_loop (pk_frames ev) (pk_recv_error ev) s1 of
                 (GotoEnd, s2) \<Rightarrow> s2
               | (Proceed, s2) \<Rightarrow> packet_loop evs (release Packet_data s2)))
         else packet_loop evs (release Packet_data s1))"

text \<open>Lines 752-787: the decoder flush. After its sink loop \<open>ret\<close> is negative, so the
  loop \<^verbatim>\<open>while (ret >= 0)\<close> receives at most one frame.\<close>

definition flush_decoder :: "answers \<Rightarrow> pstate \<Rightarrow> pstate" where
  "flush_decoder A s0 =
     (if \<not> flush_send_ok A then s0
      else
        (case flush_frame A of
           None \<Rightarrow> av_frame_unref Frame_data Frame_hw_frames_ctx s0
         | Some ev \<Rightarrow>
             let s1 = repair_frame ev (receive_frame ev s0)
             in if \<not> fr_feed_ok ev
                then av_frame_unref Frame_data Frame_hw_frames_ctx s1
                else av_frame_unref Frame_data Frame_hw_frames_ctx
                       (sink_loop_flush (fr_sink ev) s1)))"

text \<open>Lines 641-816: the packet, the main loop, the three flushes.\<close>

definition transcode :: "answers \<Rightarrow> pstate \<Rightarrow> pstate" where
  "transcode A s0 =
     (let s1 = packet_loop (packets A) s0;
          s2 = av_packet_free Packet Packet_data s1;
          s3 = flush_decoder A s2;
          s4 = sink_loop_flush (flush_sink A) s3
      in snd (encode_write_frame (flush_enc A) True s4))"

text \<open>The try block: the first exception ends it.\<close>

definition try_block :: "answers \<Rightarrow> pstate \<Rightarrow> (error + unit) \<times> pstate" where
  "try_block A s0 =
     (case stage_input A s0 of (Inl e, s1) \<Rightarrow> (Inl e, s1) | (Inr u, s1) \<Rightarrow>
     (case stage_decoder_alloc A s1 of (Inl e, s2) \<Rightarrow> (Inl e, s2) | (Inr u, s2) \<Rightarrow>
     (case stage_decoder_open A s2 of (Inl e, s3) \<Rightarrow> (Inl e, s3) | (Inr u, s3) \<Rightarrow>
     (case stage_output A s3 of (Inl e, s4) \<Rightarrow> (Inl e, s4) | (Inr u, s4) \<Rightarrow>
     (case stage_filters A s4 of (Inl e, s5) \<Rightarrow> (Inl e, s5) | (Inr u, s5) \<Rightarrow>
     (case stage_encoder A s5 of (Inl e, s6) \<Rightarrow> (Inl e, s6) | (Inr u, s6) \<Rightarrow>
       (Inr (), transcode A s6)))))))"

subsection \<open>Cleanup\<close>

text \<open>Lines 826-865, reached after the try block and after either catch clause.\<close>

definition cleanup :: "answers \<Rightarrow> pstate \<Rightarrow> pstate" where
  "cleanup A s0 =
     (let s1 = av_frame_free Frame Frame_data Frame_hw_frames_ctx s0;
          s2 = av_frame_free Filt_frame Filt_frame_data Filt_frame_hw_frames_ctx s1;
          s3 = release Filter_graph_global s2;
          s4 = (if Decoder_ctx \<in> held s3 then
                  avcodec_free_context Decoder_ctx
                    [Decoder_hw_frames_ctx, Decoder_hw_device_ctx]
                    (release Decoder_hw_device_ctx (release Decoder_hw_frames_ctx s3))
                else s3);
          s5 = release Decoder_hw_frames_ctx_ref s4;
          s6 = (if Encoder_ctx_global \<in> held s5 then
                  avcodec_free_context Encoder_ctx_global [Encoder_hw_frames_ctx]
                    (release Encoder_hw_frames_ctx s5)
                else s5);
          s7 = release Input_format_ctx s6;
          s8 = (if Output_format_ctx_global \<in> held s7 then
                  release Output_format_ctx_global
                    (if \<not> nofile A \<and> Output_pb \<in> held s7 then release Output_pb s7 else s7)
                else s7)
      in release Hw_device_ctx_ref_global s8)"



subsection \<open>Accounting\<close>

text \<open>
  The books balance when, for every kind of resource, each acquisition is matched by a
  release, by a slot that still holds the resource, or by a recorded loss.
\<close>

definition holding :: "pstate \<Rightarrow> kind \<Rightarrow> nat" where
  "holding s k = card {sl \<in> held s. kind_of sl = k}"

definition balanced :: "pstate \<Rightarrow> bool" where
  "balanced s =
     (finite (held s)
      \<and> (\<forall>k. acquired s k = released s k + holding s k + leaked s k))"

definition no_leak :: "pstate \<Rightarrow> bool" where
  "no_leak s = (\<forall>k. leaked s k = 0)"




subsection \<open>Example environments\<close>

text \<open>
  A 1280 x 720 h264 clip of ten seconds whose three cropdetect probes report
  \<^verbatim>\<open>crop=1280:560:0:80\<close>, \<^verbatim>\<open>crop=1270:556:6:82\<close> and \<^verbatim>\<open>crop=1280:560:0:80\<close>, on
  a machine with the \<^verbatim>\<open>crop_cuda\<close> filter; the crop command succeeds.
\<close>

definition letterboxed :: extern where
  "letterboxed =
     \<lparr>ext_ffprobe = (\<lambda>p key.
         if key = ''duration'' then Some ''10.0''
         else if key = ''width'' then Some ''1280''
         else if key = ''height'' then Some ''720''
         else if key = ''codec_name'' then Some ''h264''
         else Some []),
      ext_stod = (\<lambda>str. if str = ''10.0'' then Some 10 else None),
      ext_cropdetect = (\<lambda>p k.
         if k = 1 then Some (Some (1270, 556, 6, 82)) else Some (Some (1280, 560, 0, 80))),
      ext_gradient = (\<lambda>p. NoFrames),
      ext_has_crop_cuda = True,
      ext_system = (\<lambda>c. (0, Some ''cropped''))\<rparr>"

definition clip :: path where
  "clip = [''..'', ''videos'', ''clip.mkv'']"

text \<open>The same clip when the black bars move between the probes: the probes report
  \<^verbatim>\<open>crop=1264:560:0:80\<close>, \<^verbatim>\<open>crop=1264:544:16:96\<close> and \<^verbatim>\<open>crop=1280:528:0:80\<close>, and no
  probe reports their union.\<close>

definition drifting :: extern where
  "drifting =
     letterboxed\<lparr>ext_cropdetect := (\<lambda>p k.
        if k = 0 then Some (Some (1264, 560, 0, 80))
        else if k = 1 then Some (Some (1264, 544, 16, 96))
        else Some (Some (1280, 528, 0, 80)))\<rparr>"

text \<open>An mp4 file.\<close>

definition movie :: path where
  "movie = [''..'', ''videos'', ''movie.mp4'']"

text \<open>The same clip when the crop command exits with status 1 and writes nothing.\<close>

definition crop_fails :: extern where
  "crop_fails = letterboxed\<lparr>ext_system := (\<lambda>c. (1, None))\<rparr>"

text \<open>A clip without borders: every probe reports the full frame, no frame is sampled
  by the gradient detector.\<close>

definition borderless :: extern where
  "borderless = letterboxed\<lparr>ext_cropdetect := (\<lambda>p k. Some (Some (1280, 720, 0, 0)))\<rparr>"

text \<open>A clip with bars left and right that cropdetect misses: every probe reports the full
  frame, and the largest contour box of the half-size heat map is 540 x 360 at (50, 0).\<close>

definition pillarboxed :: extern where
  "pillarboxed =
     borderless\<lparr>ext_gradient := (\<lambda>p. Contours
        [\<lparr>cv_x = 300, cv_y = 100, cv_width = 20, cv_height = 10\<rparr>,
         \<lparr>cv_x = 50, cv_y = 0, cv_width = 540, cv_height = 360\<rparr>])\<rparr>"


text \<open>A file for which ffprobe prints nothing.\<close>

definition unprobed :: extern where
  "unprobed = letterboxed\<lparr>ext_ffprobe := (\<lambda>p key. Some [])\<rparr>"

text \<open>A file system that holds the clip and an empty intermediate directory.\<close>

definition disk :: sys where
  "disk = \<lparr>files = [clip \<mapsto> ''original''], crop_calls = []\<rparr>"

definition movie_disk :: sys where
  "movie_disk = \<lparr>files = [movie \<mapsto> ''original''], crop_calls = []\<rparr>"

text \<open>A 4 x 4 image with a black frame one pixel wide around a black and white core,
  a black image of the same size, and a line of two pixels that differ by 12 in one
  channel.\<close>

definition white :: pixel where "white = (255, 255, 255)"
definition black :: pixel where "black = (0, 0, 0)"

definition framed :: Mat where
  "framed = \<lparr>mat_rows = 4, mat_cols = 4,
              mat_at = (\<lambda>r c. if (r = 1 \<and> c = 1) \<or> (r = 2 \<and> c = 2) then white else black)\<rparr>"

definition all_black :: Mat where
  "all_black = \<lparr>mat_rows = 4, mat_cols = 4, mat_at = (\<lambda>r c. black)\<rparr>"

definition faint_line :: "pixel list" where
  "faint_line = [(12, 0, 0), (0, 0, 0)]"

text \<open>
  A stream with a duplicate, a decrease and a frame that has only a \<open>pkt_dts\<close>; and a
  stream whose second frame has neither \<open>pts\<close> nor \<open>pkt_dts\<close>.
\<close>

definition jittery :: "frame_ts list" where
  "jittery =
     [\<lparr>pts = 10, pkt_dts = 10\<rparr>, \<lparr>pts = 10, pkt_dts = 11\<rparr>, \<lparr>pts = 7, pkt_dts = 12\<rparr>,
      \<lparr>pts = AV_NOPTS_VALUE, pkt_dts = 20\<rparr>, \<lparr>pts = 30, pkt_dts = 30\<rparr>]"

definition untimed :: "frame_ts list" where
  "untimed = [\<lparr>pts = 5, pkt_dts = 5\<rparr>, \<lparr>pts = AV_NOPTS_VALUE, pkt_dts = AV_NOPTS_VALUE\<rparr>]"




section \<open>Properties\<close>

subsection \<open>The goodness test\<close>


lemma sensible_size_int:
  "sensible_size r ow oh \<longleftrightarrow> ow < 20 * rect_w r \<and> oh < 20 * rect_h r"
proof -
  have e: "\<And>a b::int. 5 / 100 * real_of_int b < real_of_int a \<longleftrightarrow> b < 20 * a"
  proof -
    fix a b :: int
    have "5 / 100 * real_of_int b < real_of_int a \<longleftrightarrow> real_of_int b < real_of_int (20 * a)"
      by (simp add: field_simps)
    then show "5 / 100 * real_of_int b < real_of_int a \<longleftrightarrow> b < 20 * a"
      by (simp only: of_int_less_iff)
  qed
  show ?thesis by (simp only: sensible_size_def e)
qed



subsection \<open>The multi-probe detector\<close>

lemma wrap32_id: "in_int v \<Longrightarrow> wrap32 v = v"
  by (simp add: wrap32_def in_int_def INT_MIN_def INT_MAX_def)

lemma even_wrap32: "even (wrap32 v) \<longleftrightarrow> even v"
proof -
  have "even ((v + 2 ^ 31) mod 2 ^ 32) \<longleftrightarrow> even (v + 2 ^ 31)"
    by (rule dvd_mod_iff) simp
  then show ?thesis by (simp add: wrap32_def)
qed

lemma Min_insert_min: "finite S \<Longrightarrow> Min (insert (min a v) S) = Min (insert a (insert v S))"
  by (cases "S = {}") (simp_all add: min.assoc)

lemma Max_insert_max: "finite S \<Longrightarrow> Max (insert (max a v) S) = Max (insert a (insert v S))"
  by (cases "S = {}") (simp_all add: max.assoc)

lemma union_loop_eq:
  assumes "\<forall>r\<in>set rs. in_int (rect_x r + rect_w r) \<and> in_int (rect_y r + rect_h r)"
  shows "union_loop rs (a, b, c, d) =
     (Min (insert a (rect_x ` set rs)), Min (insert b (rect_y ` set rs)),
      Max (insert c ((\<lambda>r. rect_x r + rect_w r) ` set rs)),
      Max (insert d ((\<lambda>r. rect_y r + rect_h r) ` set rs)))"
  using assms
proof (induction rs arbitrary: a b c d)
  case Nil
  show ?case by simp
next
  case (Cons r rs)
  have w: "wrap32 (rect_x r + rect_w r) = rect_x r + rect_w r"
    "wrap32 (rect_y r + rect_h r) = rect_y r + rect_h r"
    using Cons.prems by (simp_all add: wrap32_id)
  have rest: "\<forall>r\<in>set rs. in_int (rect_x r + rect_w r) \<and> in_int (rect_y r + rect_h r)"
    using Cons.prems by simp
  show ?case
    by (simp only: union_loop.simps w Cons.IH [OF rest] list.set image_insert Min_insert_min
        Max_insert_max finite_imageI finite_set)
qed


lemma map_filter_Cons:
  "List.map_filter f (x # xs) =
     (case f x of None \<Rightarrow> List.map_filter f xs | Some y \<Rightarrow> y # List.map_filter f xs)"
  by (simp add: List.map_filter_def split: option.splits)

lemma set_probe_rects:
  "r \<in> set (probe_rects E src) \<longleftrightarrow> (\<exists>k<FFMPEG_PROBES. probe_rect E src k = Some r)"
  by (force simp: probe_rects_def List.map_filter_def)

lemma probe_rect_Some:
  "probe_rect E src k = Some r \<longleftrightarrow>
     (\<exists>g1 g2 g3 g4. ext_cropdetect E src k = Some (Some (g1, g2, g3, g4))
        \<and> r = mk_rect (int g3) (int g4) (int g1) (int g2) True)"
  by (auto simp: probe_rect_def split: option.splits)

text \<open>When every probe runs and prints numbers that fit an \<^verbatim>\<open>int\<close>, the loop collects
  the rectangle of each probe, in the order of the probes.\<close>

lemma probe_loop_collects:
  assumes ran: "\<forall>j<FFMPEG_PROBES. ext_cropdetect E src j \<noteq> None"
    and fits: "\<forall>r\<in>set (probe_rects E src).
                 rect_x r \<le> INT_MAX \<and> rect_y r \<le> INT_MAX \<and> rect_w r \<le> INT_MAX \<and> rect_h r \<le> INT_MAX"
  shows "probe_loop E src k acc =
           Inr (acc @ List.map_filter (probe_rect E src) [k..<FFMPEG_PROBES])"
  using assms
proof (induction E src k acc rule: probe_loop.induct)
  case (1 E src k acc)
  show ?case
  proof (cases "k < FFMPEG_PROBES")
    case False
    then show ?thesis by (simp add: probe_loop.simps List.map_filter_def)
  next
    case True
    note lt = this
    have up: "[k..<FFMPEG_PROBES] = k # [k + 1..<FFMPEG_PROBES]"
      using lt by (simp add: upt_conv_Cons)
    from "1.prems"(1) lt obtain m where sm: "ext_cropdetect E src k = Some m" by auto
    show ?thesis
    proof (cases m)
      case None
      have pr: "probe_rect E src k = None" by (simp add: probe_rect_def sm None)
      have "probe_loop E src k acc = probe_loop E src (k + 1) acc"
        using lt sm None by (simp add: probe_loop.simps [of E src k])
      also have "\<dots> = Inr (acc @ List.map_filter (probe_rect E src) [k + 1..<FFMPEG_PROBES])"
        using "1.IH"(1) [OF lt sm None "1.prems"] .
      finally show ?thesis by (simp add: up map_filter_Cons pr)
    next
      case (Some g)
      obtain g1 g2 g3 g4 where g: "g = (g1, g2, g3, g4)" by (cases g) auto
      let ?r = "mk_rect (int g3) (int g4) (int g1) (int g2) True"
      have pr: "probe_rect E src k = Some ?r" by (simp add: probe_rect_def sm Some g)
      then have "?r \<in> set (probe_rects E src)" using lt set_probe_rects by blast
      with "1.prems"(2) have b: "int g3 \<le> INT_MAX" "int g4 \<le> INT_MAX" "int g1 \<le> INT_MAX"
        "int g2 \<le> INT_MAX"
        by (auto simp: mk_rect_def)
      then have p: "stoi_group g3 = Inr (int g3)" "stoi_group g4 = Inr (int g4)"
        "stoi_group g1 = Inr (int g1)" "stoi_group g2 = Inr (int g2)"
        by (simp_all add: stoi_group_def)
      have "probe_loop E src k acc = probe_loop E src (k + 1) (acc @ [?r])"
        using lt sm Some g p by (simp add: probe_loop.simps [of E src k])
      also have "\<dots> = Inr ((acc @ [?r]) @ List.map_filter (probe_rect E src) [k + 1..<FFMPEG_PROBES])"
        using "1.IH"(2) [OF lt sm Some, of g1 "(g2, g3, g4)" g2 "(g3, g4)" g3 g4
            "int g3" "int g4" "int g1" "int g2"] g p "1.prems" by simp
      finally show ?thesis by (simp add: up map_filter_Cons pr)
    qed
  qed
qed

lemma probe_loop_probe_rects:
  assumes "\<forall>j<FFMPEG_PROBES. ext_cropdetect E src j \<noteq> None"
    and "\<forall>r\<in>set (probe_rects E src).
           rect_x r \<le> INT_MAX \<and> rect_y r \<le> INT_MAX \<and> rect_w r \<le> INT_MAX \<and> rect_h r \<le> INT_MAX"
  shows "probe_loop E src 0 [] = Inr (probe_rects E src)"
  using probe_loop_collects [OF assms, of 0 "[]"] by (simp add: probe_rects_def)

lemma probe_rects_nonneg:
  "r \<in> set (probe_rects E src) \<Longrightarrow>
   0 \<le> rect_x r \<and> 0 \<le> rect_y r \<and> 0 \<le> rect_w r \<and> 0 \<le> rect_h r"
  by (auto simp: set_probe_rects probe_rect_Some mk_rect_def)

text \<open>The union of rectangles whose right and bottom edges, moved out by the margin, fit
  an \<^verbatim>\<open>int\<close>: no sum wraps.\<close>

lemma union_with_margin_eq:
  assumes ne: "rects \<noteq> []" and m: "0 \<le> m"
    and nn: "\<forall>r\<in>set rects. 0 \<le> rect_x r \<and> 0 \<le> rect_y r \<and> 0 \<le> rect_w r \<and> 0 \<le> rect_h r"
    and fits: "\<forall>r\<in>set rects. rect_x r + rect_w r + m \<le> INT_MAX
                 \<and> rect_y r + rect_h r + m \<le> INT_MAX"
  shows "union_with_margin m rects =
     mk_rect (max 0 (Min (rect_x ` set rects) - m)) (max 0 (Min (rect_y ` set rects) - m))
       ((Max ((\<lambda>r. rect_x r + rect_w r) ` set rects) + m) - max 0 (Min (rect_x ` set rects) - m))
       ((Max ((\<lambda>r. rect_y r + rect_h r) ` set rects) + m) - max 0 (Min (rect_y ` set rects) - m))
       True"
proof -
  from ne obtain r0 rest where r: "rects = r0 # rest" by (cases rects) auto
  let ?mx = "Min (rect_x ` set rects)" and ?my = "Min (rect_y ` set rects)"
  let ?Mx = "Max ((\<lambda>r. rect_x r + rect_w r) ` set rects)"
  let ?My = "Max ((\<lambda>r. rect_y r + rect_h r) ` set rects)"
  have each: "\<forall>q\<in>set rects. in_int (rect_x q + rect_w q) \<and> in_int (rect_y q + rect_h q)"
    using nn fits m by (auto simp: in_int_def INT_MIN_def)
  have "?mx \<in> rect_x ` set rects" using ne by (intro Min_in) simp_all
  then obtain q1 where q1: "q1 \<in> set rects" "?mx = rect_x q1" by auto
  have "?my \<in> rect_y ` set rects" using ne by (intro Min_in) simp_all
  then obtain q2 where q2: "q2 \<in> set rects" "?my = rect_y q2" by auto
  have "?Mx \<in> (\<lambda>r. rect_x r + rect_w r) ` set rects" using ne by (intro Max_in) simp_all
  then obtain q3 where q3: "q3 \<in> set rects" "?Mx = rect_x q3 + rect_w q3" by auto
  have "?My \<in> (\<lambda>r. rect_y r + rect_h r) ` set rects" using ne by (intro Max_in) simp_all
  then obtain q4 where q4: "q4 \<in> set rects" "?My = rect_y q4 + rect_h q4" by auto
  have bx: "0 \<le> ?mx" "?mx + m \<le> INT_MAX"
    using nn [rule_format, OF q1(1)] fits [rule_format, OF q1(1)] by (simp_all add: q1(2))
  have by': "0 \<le> ?my" "?my + m \<le> INT_MAX"
    using nn [rule_format, OF q2(1)] fits [rule_format, OF q2(1)] by (simp_all add: q2(2))
  have bX: "0 \<le> ?Mx" "?Mx + m \<le> INT_MAX"
    using nn [rule_format, OF q3(1)] fits [rule_format, OF q3(1)] by (simp_all add: q3(2))
  have bY: "0 \<le> ?My" "?My + m \<le> INT_MAX"
    using nn [rule_format, OF q4(1)] fits [rule_format, OF q4(1)] by (simp_all add: q4(2))
  have w1: "wrap32 (?mx - m) = ?mx - m" "wrap32 (?my - m) = ?my - m"
    using bx by' m by (auto intro!: wrap32_id simp: in_int_def INT_MIN_def INT_MAX_def)
  have w2: "wrap32 (?Mx + m) = ?Mx + m" "wrap32 (?My + m) = ?My + m"
    using bX bY m by (auto intro!: wrap32_id simp: in_int_def INT_MIN_def INT_MAX_def)
  have w3: "wrap32 (?Mx + m - max 0 (?mx - m)) = ?Mx + m - max 0 (?mx - m)"
    using bX bx m by (auto intro!: wrap32_id simp: in_int_def INT_MIN_def INT_MAX_def max_def)
  have w4: "wrap32 (?My + m - max 0 (?my - m)) = ?My + m - max 0 (?my - m)"
    using bY by' m by (auto intro!: wrap32_id simp: in_int_def INT_MIN_def INT_MAX_def max_def)
  have w0: "wrap32 (rect_x r0 + rect_w r0) = rect_x r0 + rect_w r0"
    "wrap32 (rect_y r0 + rect_h r0) = rect_y r0 + rect_h r0"
    using each r by (simp_all add: wrap32_id)
  have rest: "\<forall>q\<in>set rest. in_int (rect_x q + rect_w q) \<and> in_int (rect_y q + rect_h q)"
    using each r by simp
  have loop: "union_loop rest (rect_x r0, rect_y r0, rect_x r0 + rect_w r0, rect_y r0 + rect_h r0)
                = (?mx, ?my, ?Mx, ?My)"
    by (simp add: union_loop_eq [OF rest] r)
  show ?thesis
    unfolding union_with_margin_def r list.case w0 loop prod.case Let_def
    unfolding r [symmetric] w1 w2 w3 w4 ..
qed

text \<open>
  C2. When the duration is known, every probe runs and at least one probe yields a
  rectangle, the detector returns a valid rectangle whose top-left corner is the minimum
  x and minimum y of the rectangles of all probes moved out by the margin and clamped at
  0, and whose bottom-right corner is the maximum x+w and maximum y+h moved out by the
  margin; the default margin is 4; with margin 0 the result is the raw union bounding
  box. The rectangles are those of a video frame: their right and bottom edges, moved
  out by the margin, fit an \<^verbatim>\<open>int\<close>.
\<close>

theorem C2_multi_probe_union:
  assumes "probe_duration E src = Inr d" and "d \<noteq> 0"
    and ran: "\<forall>k<FFMPEG_PROBES. ext_cropdetect E src k \<noteq> None"
    and ne: "probe_rects E src \<noteq> []"
    and m: "0 \<le> m"
    and fits: "\<forall>q\<in>set (probe_rects E src).
                 rect_x q + rect_w q + m \<le> INT_MAX \<and> rect_y q + rect_h q + m \<le> INT_MAX"
  shows "(\<exists>r. detect_crop_ffmpeg_margin m E src = Inr r \<and> rect_valid r
            \<and> rect_x r = max 0 (Min (rect_x ` set (probe_rects E src)) - m)
            \<and> rect_y r = max 0 (Min (rect_y ` set (probe_rects E src)) - m)
            \<and> rect_x r + rect_w r
                = Max ((\<lambda>q. rect_x q + rect_w q) ` set (probe_rects E src)) + m
            \<and> rect_y r + rect_h r
                = Max ((\<lambda>q. rect_y q + rect_h q) ` set (probe_rects E src)) + m)
       \<and> detect_crop_ffmpeg E src = detect_crop_ffmpeg_margin 4 E src
       \<and> detect_crop_ffmpeg_margin 0 E src = Inr (union_bbox (probe_rects E src))"
proof -
  let ?rects = "probe_rects E src"
  have nn: "\<forall>r\<in>set ?rects. 0 \<le> rect_x r \<and> 0 \<le> rect_y r \<and> 0 \<le> rect_w r \<and> 0 \<le> rect_h r"
    using probe_rects_nonneg by blast
  have small: "\<forall>r\<in>set ?rects.
                 rect_x r \<le> INT_MAX \<and> rect_y r \<le> INT_MAX \<and> rect_w r \<le> INT_MAX \<and> rect_h r \<le> INT_MAX"
  proof
    fix r assume r: "r \<in> set ?rects"
    from nn r have "0 \<le> rect_x r" "0 \<le> rect_y r" "0 \<le> rect_w r" "0 \<le> rect_h r" by auto
    moreover from fits r have "rect_x r + rect_w r + m \<le> INT_MAX"
      "rect_y r + rect_h r + m \<le> INT_MAX" by auto
    ultimately show "rect_x r \<le> INT_MAX \<and> rect_y r \<le> INT_MAX \<and> rect_w r \<le> INT_MAX
                     \<and> rect_h r \<le> INT_MAX"
      using m by auto
  qed
  have loop: "probe_loop E src 0 [] = Inr ?rects"
    by (rule probe_loop_probe_rects [OF ran small])
  have run: "\<And>k. detect_crop_ffmpeg_margin k E src = Inr (union_with_margin k ?rects)"
    using assms(1,2) loop by (simp add: detect_crop_ffmpeg_margin_def)
  have fits0: "\<forall>q\<in>set ?rects. rect_x q + rect_w q + 0 \<le> INT_MAX
                 \<and> rect_y q + rect_h q + 0 \<le> INT_MAX"
    using fits m by auto
  have fin: "finite (rect_x ` set ?rects)" "finite (rect_y ` set ?rects)"
    and nem: "rect_x ` set ?rects \<noteq> {}" "rect_y ` set ?rects \<noteq> {}"
    using ne by simp_all
  have mx: "0 \<le> Min (rect_x ` set ?rects)"
    using nn by (simp add: Min_ge_iff [OF fin(1) nem(1)])
  have my: "0 \<le> Min (rect_y ` set ?rects)"
    using nn by (simp add: Min_ge_iff [OF fin(2) nem(2)])
  have a: "\<exists>r. detect_crop_ffmpeg_margin m E src = Inr r \<and> rect_valid r
            \<and> rect_x r = max 0 (Min (rect_x ` set ?rects) - m)
            \<and> rect_y r = max 0 (Min (rect_y ` set ?rects) - m)
            \<and> rect_x r + rect_w r = Max ((\<lambda>q. rect_x q + rect_w q) ` set ?rects) + m
            \<and> rect_y r + rect_h r = Max ((\<lambda>q. rect_y q + rect_h q) ` set ?rects) + m"
    by (simp add: run union_with_margin_eq [OF ne m nn fits] mk_rect_def)
  have b: "detect_crop_ffmpeg E src = detect_crop_ffmpeg_margin 4 E src"
    by (simp add: detect_crop_ffmpeg_def SAFE_MARGIN_PX_def)
  have z: "(0::int) \<le> 0" by simp
  have c: "detect_crop_ffmpeg_margin 0 E src = Inr (union_bbox ?rects)"
    using mx my by (simp add: run union_with_margin_eq [OF ne z nn fits0] union_bbox_def max_def)
  from a b c show ?thesis by blast
qed

lemma probe_duration_drifting: "probe_duration drifting clip = Inr 10"
  by (simp add: probe_duration_def ffprobe_val_def drifting_def letterboxed_def)

lemma probe_rects_drifting:
  "probe_rects drifting clip =
     [mk_rect 0 80 1264 560 True, mk_rect 16 96 1264 544 True, mk_rect 0 80 1280 528 True]"
  by code_simp

text \<open>
  C2, at the clip whose bars move: the three probes report 1264 x 560 at (0, 80),
  1264 x 544 at (16, 96) and 1280 x 528 at (0, 80); their union is 1280 x 560 at
  (0, 80), which no probe reports, and the detector returns it moved out by 4.
\<close>

theorem C2_witness:
  "detect_crop_ffmpeg drifting clip = Inr (mk_rect 0 76 1284 568 True)
   \<and> detect_crop_ffmpeg_margin 0 drifting clip = Inr (mk_rect 0 80 1280 560 True)
   \<and> mk_rect 0 80 1280 560 True \<notin> set (probe_rects drifting clip)"
proof -
  let ?rs = "[mk_rect 0 80 1264 560 True, mk_rect 16 96 1264 544 True,
              mk_rect 0 80 1280 528 True]"
  have d: "(10::real) \<noteq> 0" by simp
  have ran: "\<forall>k<FFMPEG_PROBES. ext_cropdetect drifting clip k \<noteq> None"
    by (simp add: drifting_def)
  have ne: "probe_rects drifting clip \<noteq> []"
    by (simp add: probe_rects_drifting)
  have m: "(0::int) \<le> 4" by simp
  have fits: "\<forall>q\<in>set (probe_rects drifting clip).
                 rect_x q + rect_w q + 4 \<le> INT_MAX \<and> rect_y q + rect_h q + 4 \<le> INT_MAX"
    by (simp add: probe_rects_drifting mk_rect_def INT_MAX_def)
  note t = C2_multi_probe_union [OF probe_duration_drifting d ran ne m fits,
      unfolded probe_rects_drifting]
  from t obtain r where r: "detect_crop_ffmpeg_margin 4 drifting clip = Inr r"
     "rect_valid r"
     "rect_x r = max 0 (Min (rect_x ` set ?rs) - 4)"
     "rect_y r = max 0 (Min (rect_y ` set ?rs) - 4)"
     "rect_x r + rect_w r = Max ((\<lambda>q. rect_x q + rect_w q) ` set ?rs) + 4"
     "rect_y r + rect_h r = Max ((\<lambda>q. rect_y q + rect_h q) ` set ?rs) + 4"
    by blast
  have "r = mk_rect 0 76 1284 568 True"
    using r(2-6) by (cases r) (simp add: mk_rect_def)
  with r(1) t show ?thesis
    by (simp add: union_bbox_def mk_rect_def probe_rects_drifting)
qed

subsection \<open>The phase-1 handler\<close>

lemma copy_file_ok:
  "files s from = Some bytes \<Longrightarrow> from \<noteq> to \<Longrightarrow>
   copy_file from to s = (Inr (), s\<lparr>files := (files s)(to \<mapsto> bytes)\<rparr>)"
  by (simp add: copy_file_def)

lemma crop_gpu_files_other:
  "p \<noteq> dst \<Longrightarrow> files (snd (crop_gpu E src dst rect ow oh s)) p = files s p"
  by (simp add: crop_gpu_def Let_def split: sum.splits prod.splits option.splits)

lemma crop_gpu_calls:
  "crop_calls (snd (crop_gpu E src dst rect ow oh s)) = crop_calls s @ [(src, dst, rect, ow, oh)]"
  by (simp add: crop_gpu_def Let_def split: sum.splits prod.splits option.splits)

lemma crop_gpu_nonzero:
  assumes "ffprobe_val E src ''codec_name'' = Inr codec"
    and "fst (ext_system E (crop_gpu_command (ext_has_crop_cuda E) codec src dst rect ow oh)) \<noteq> 0"
  shows "fst (crop_gpu E src dst rect ow oh s) = Inl RuntimeError"
proof -
  obtain ret written where
    r: "ext_system E (crop_gpu_command (ext_has_crop_cuda E) codec src dst rect ow oh) = (ret, written)"
    by (cases "ext_system E (crop_gpu_command (ext_has_crop_cuda E) codec src dst rect ow oh)")
  with assms(2) have "ret \<noteq> 0" by simp
  then show ?thesis by (simp add: crop_gpu_def Let_def assms(1) r)
qed

lemma crop_gpu_success_written:
  assumes "fst (crop_gpu E src dst rect ow oh s) = Inr u"
    and "\<forall>cmd. fst (ext_system E cmd) = 0 \<longrightarrow> snd (ext_system E cmd) \<noteq> None"
  shows "files (snd (crop_gpu E src dst rect ow oh s)) dst \<noteq> None"
proof (cases "ffprobe_val E src ''codec_name''")
  case (Inl e)
  with assms(1) show ?thesis by (simp add: crop_gpu_def Let_def)
next
  case (Inr codec)
  obtain ret written where
    r: "ext_system E (crop_gpu_command (ext_has_crop_cuda E) codec src dst rect ow oh) = (ret, written)"
    by (cases "ext_system E (crop_gpu_command (ext_has_crop_cuda E) codec src dst rect ow oh)")
  from assms(1) Inr r have z: "ret = 0"
    by (simp add: crop_gpu_def Let_def split: if_splits)
  from assms(2) r z have "written \<noteq> None"
    by (metis fst_conv snd_conv)
  then obtain bytes where "written = Some bytes" by auto
  then show ?thesis by (simp add: crop_gpu_def Let_def Inr r z)
qed

lemma is_good_crop_valid: "is_good_crop r ow oh \<Longrightarrow> rect_valid r \<and> 0 < rect_w r \<and> 0 < rect_h r"
  by (auto simp: is_good_crop_def split: if_splits)

text \<open>The three ways out of lines 394-410.\<close>

lemma crop_or_copy_not_good:
  assumes "\<not> is_good_crop rect ow oh" and "files s src = Some bytes" and "src \<noteq> dst"
  shows "crop_or_copy E src dst rect mode ow oh s =
           (Inr ''copy'', s\<lparr>files := (files s)(dst \<mapsto> bytes)\<rparr>)"
  using assms by (simp add: crop_or_copy_def copy_file_ok)

lemma crop_or_copy_crop_fails:
  assumes "is_good_crop rect ow oh" and "files s src = Some bytes" and "src \<noteq> dst"
    and "fst (crop_gpu E src dst rect ow oh s) = Inl e"
  shows "fst (crop_or_copy E src dst rect mode ow oh s) = Inr ''copy_after_error''
       \<and> files (snd (crop_or_copy E src dst rect mode ow oh s)) =
           (files (snd (crop_gpu E src dst rect ow oh s)))(dst \<mapsto> bytes)
       \<and> crop_calls (snd (crop_or_copy E src dst rect mode ow oh s)) =
           crop_calls s @ [(src, dst, rect, ow, oh)]"
proof -
  obtain s1 where c: "crop_gpu E src dst rect ow oh s = (Inl e, s1)"
    using assms(4) by (cases "crop_gpu E src dst rect ow oh s") auto
  have f: "files s1 src = Some bytes"
    using crop_gpu_files_other [OF assms(3), of E src rect ow oh s] c assms(2) by simp
  have k: "crop_calls s1 = crop_calls s @ [(src, dst, rect, ow, oh)]"
    using crop_gpu_calls [of E src dst rect ow oh s] c by simp
  show ?thesis
    using assms(1) is_good_crop_valid [OF assms(1)] c k
    by (simp add: crop_or_copy_def copy_file_ok [OF f assms(3)])
qed

lemma crop_or_copy_crop_ok:
  assumes "is_good_crop rect ow oh" and "fst (crop_gpu E src dst rect ow oh s) = Inr u"
  shows "crop_or_copy E src dst rect mode ow oh s =
           (Inr (''crop['' @ mode @ '']''), snd (crop_gpu E src dst rect ow oh s))"
proof -
  obtain s1 where c: "crop_gpu E src dst rect ow oh s = (Inr u, s1)"
    using assms(2) by (cases "crop_gpu E src dst rect ow oh s") auto
  show ?thesis
    using assms(1) is_good_crop_valid [OF assms(1)] c by (simp add: crop_or_copy_def)
qed

lemma handle_video_phase1_run:
  assumes "probe_dimensions E src = Inr (Some (ow, oh))"
    and "choose_rect E src ow oh = Inr (rect, mode)"
  shows "handle_video_phase1 E src s =
           crop_or_copy E src (CROPPED_DIR @ filename src) rect mode ow oh s"
  using assms by (simp add: handle_video_phase1_def)

lemma choose_rect_not_good:
  assumes "detect_crop_ffmpeg E src = Inr r1" and "\<not> is_good_crop r1 ow oh"
    and "\<not> is_good_crop (detect_gradient E src ow oh) ow oh"
  shows "choose_rect E src ow oh = Inr (r1, ''ffmpeg'')"
  using assms by (simp add: choose_rect_def)

text \<open>
  C3. For a video whose dimensions were probed, whose detection completed and whose file
  exists: when the chosen rectangle is good and the crop command exits nonzero, the
  handler returns \<^verbatim>\<open>copy_after_error\<close> and the destination holds the bytes of the
  original; when neither the cropdetect union nor the gradient rectangle passes the
  goodness test, it returns \<^verbatim>\<open>copy\<close> and the destination holds the bytes of the
  original. In both cases the destination file exists.
\<close>

theorem C3_fallback_copy:
  assumes dims: "probe_dimensions E src = Inr (Some (ow, oh))"
    and rect: "choose_rect E src ow oh = Inr (rect, mode)"
    and det: "detect_crop_ffmpeg E src = Inr r1"
    and fil: "files s src = Some bytes"
    and dst: "dst = CROPPED_DIR @ filename src" and ne: "src \<noteq> dst"
  shows "(is_good_crop rect ow oh
          \<and> (\<exists>codec. ffprobe_val E src ''codec_name'' = Inr codec
                \<and> fst (ext_system E (crop_gpu_command (ext_has_crop_cuda E) codec
                          src dst rect ow oh)) \<noteq> 0)
          \<longrightarrow> fst (handle_video_phase1 E src s) = Inr ''copy_after_error''
              \<and> files (snd (handle_video_phase1 E src s)) dst = Some bytes)
       \<and> (\<not> is_good_crop r1 ow oh \<and> \<not> is_good_crop (detect_gradient E src ow oh) ow oh
          \<longrightarrow> fst (handle_video_phase1 E src s) = Inr ''copy''
              \<and> files (snd (handle_video_phase1 E src s)) dst = Some bytes)"
proof (intro conjI impI)
  assume a: "is_good_crop rect ow oh
          \<and> (\<exists>codec. ffprobe_val E src ''codec_name'' = Inr codec
                \<and> fst (ext_system E (crop_gpu_command (ext_has_crop_cuda E) codec
                          src dst rect ow oh)) \<noteq> 0)"
  then have fail: "fst (crop_gpu E src dst rect ow oh s) = Inl RuntimeError"
    using crop_gpu_nonzero by blast
  note r = crop_or_copy_crop_fails [OF conjunct1 [OF a] fil ne fail, of mode]
  show "fst (handle_video_phase1 E src s) = Inr ''copy_after_error''"
    using r by (simp add: handle_video_phase1_run [OF dims rect] dst [symmetric])
  show "files (snd (handle_video_phase1 E src s)) dst = Some bytes"
    using r by (simp add: handle_video_phase1_run [OF dims rect] dst [symmetric])
next
  assume b: "\<not> is_good_crop r1 ow oh \<and> \<not> is_good_crop (detect_gradient E src ow oh) ow oh"
  have c: "choose_rect E src ow oh = Inr (r1, ''ffmpeg'')"
    using choose_rect_not_good [OF det] b by blast
  note r = crop_or_copy_not_good [OF conjunct1 [OF b] fil ne, of E "''ffmpeg''"]
  show "fst (handle_video_phase1 E src s) = Inr ''copy''"
    using r by (simp add: handle_video_phase1_run [OF dims c] dst [symmetric])
  show "files (snd (handle_video_phase1 E src s)) dst = Some bytes"
    using r by (simp add: handle_video_phase1_run [OF dims c] dst [symmetric])
qed

lemma copy_file_calls: "crop_calls (snd (copy_file a b s)) = crop_calls s"
  by (simp add: copy_file_def split: option.splits)

lemma copy_file_files_other: "p \<noteq> b \<Longrightarrow> files (snd (copy_file a b s)) p = files s p"
  by (simp add: copy_file_def split: option.splits)

lemma crop_or_copy_calls:
  "crop_calls (snd (crop_or_copy E src dst rect mode ow oh s)) =
     crop_calls s @ (if rect_valid rect \<and> is_good_crop rect ow oh
                     then [(src, dst, rect, ow, oh)] else [])"
proof (cases "rect_valid rect \<and> is_good_crop rect ow oh")
  case False
  then show ?thesis
    using copy_file_calls [of src dst s]
    by (cases "copy_file src dst s") (auto simp: crop_or_copy_def split: sum.splits)
next
  case True
  obtain r s1 where c: "crop_gpu E src dst rect ow oh s = (r, s1)"
    by (cases "crop_gpu E src dst rect ow oh s")
  have k: "crop_calls s1 = crop_calls s @ [(src, dst, rect, ow, oh)]"
    using crop_gpu_calls [of E src dst rect ow oh s] c by simp
  show ?thesis
    using True c k copy_file_calls [of src dst s1]
    by (cases "copy_file src dst s1") (auto simp: crop_or_copy_def split: sum.splits)
qed

lemma crop_or_copy_files_other:
  assumes "p \<noteq> dst"
  shows "files (snd (crop_or_copy E src dst rect mode ow oh s)) p = files s p"
proof (cases "rect_valid rect \<and> is_good_crop rect ow oh")
  case False
  then show ?thesis
    using copy_file_files_other [OF assms, of src s]
    by (cases "copy_file src dst s") (auto simp: crop_or_copy_def split: sum.splits)
next
  case True
  obtain r s1 where c: "crop_gpu E src dst rect ow oh s = (r, s1)"
    by (cases "crop_gpu E src dst rect ow oh s")
  have k: "files s1 p = files s p"
    using crop_gpu_files_other [OF assms, of E src rect ow oh s] c by simp
  show ?thesis
    using True c k copy_file_files_other [OF assms, of src s1]
    by (cases "copy_file src dst s1") (auto simp: crop_or_copy_def split: sum.splits)
qed

lemma union_with_margin_nonneg:
  "0 \<le> rect_x (union_with_margin m rects) \<and> 0 \<le> rect_y (union_with_margin m rects)"
  by (cases rects)
    (simp_all add: union_with_margin_def invalid_rect_def mk_rect_def Let_def split: prod.splits)

lemma detect_crop_ffmpeg_nonneg:
  "detect_crop_ffmpeg E src = Inr r \<Longrightarrow> 0 \<le> rect_x r \<and> 0 \<le> rect_y r"
  using union_with_margin_nonneg
  by (auto simp: detect_crop_ffmpeg_def detect_crop_ffmpeg_margin_def invalid_rect_def
      mk_rect_def split: sum.splits if_splits)

lemma max_area_loop_in:
  "max_area_loop cs a best = best \<or> max_area_loop cs a best \<in> set cs"
proof (induction cs arbitrary: a best)
  case Nil
  show ?case by simp
next
  case (Cons c cs)
  show ?case
    using Cons.IH [of "cv_area c" c] Cons.IH [of a best] by auto
qed

lemma cast_int_nonneg: "0 \<le> v \<Longrightarrow> 0 \<le> cast_int v"
  by (simp add: cast_int_def)

lemma detect_gradient_nonneg:
  assumes "\<forall>cs. ext_gradient E src = Contours cs \<longrightarrow> (\<forall>b\<in>set cs. 0 \<le> cv_x b \<and> 0 \<le> cv_y b)"
  shows "0 \<le> rect_x (detect_gradient E src ow oh) \<and> 0 \<le> rect_y (detect_gradient E src ow oh)"
proof (cases "ext_gradient E src")
  case (Contours cs)
  let ?d = "\<lparr>cv_x = 0, cv_y = 0, cv_width = 0, cv_height = 0\<rparr>"
  let ?b = "max_area_loop cs 0 ?d"
  have "?b = ?d \<or> ?b \<in> set cs" by (rule max_area_loop_in)
  with assms Contours have "0 \<le> cv_x ?b \<and> 0 \<le> cv_y ?b" by auto
  then have "0 \<le> real_of_int (cv_x ?b) * (1 / DOWNSCALE) \<and> 0 \<le> real_of_int (cv_y ?b) * (1 / DOWNSCALE)"
    by (simp add: DOWNSCALE_def)
  then show ?thesis
    using cast_int_nonneg
    by (simp add: detect_gradient_def Contours invalid_rect_def mk_rect_def Let_def)
qed (simp_all add: detect_gradient_def invalid_rect_def mk_rect_def)

lemma choose_rect_nonneg:
  assumes "\<forall>cs. ext_gradient E src = Contours cs \<longrightarrow> (\<forall>b\<in>set cs. 0 \<le> cv_x b \<and> 0 \<le> cv_y b)"
    and "choose_rect E src ow oh = Inr (rect, mode)"
  shows "0 \<le> rect_x rect \<and> 0 \<le> rect_y rect"
  using assms(2) detect_gradient_nonneg [OF assms(1), of ow oh] detect_crop_ffmpeg_nonneg [of E src]
  by (auto simp: choose_rect_def Let_def split: sum.splits if_splits)

text \<open>
  C9. Every call of \<^verbatim>\<open>crop_gpu\<close> that the handler makes carries a rectangle that is
  valid and passes \<open>is_good_crop\<close>, with positive width and height and non-negative
  x and y. Positive sizes follow from \<open>is_good_crop\<close>; non-negative corners follow from
  the detectors: the cropdetect union clamps at 0, and the gradient rectangle doubles the
  corner of a contour box, which the vision library places inside the image.
\<close>

theorem C9_only_good_rects_cropped:
  assumes "\<forall>cs. ext_gradient E src = Contours cs \<longrightarrow> (\<forall>b\<in>set cs. 0 \<le> cv_x b \<and> 0 \<le> cv_y b)"
  shows "\<exists>new. crop_calls (snd (handle_video_phase1 E src s)) = crop_calls s @ new
           \<and> (\<forall>c\<in>set new. case c of (sp, dp, rect, ow, oh) \<Rightarrow>
                 rect_valid rect \<and> is_good_crop rect ow oh
                 \<and> 0 < rect_w rect \<and> 0 < rect_h rect \<and> 0 \<le> rect_x rect \<and> 0 \<le> rect_y rect)"
proof (cases "probe_dimensions E src")
  case (Inl e)
  then show ?thesis by (simp add: handle_video_phase1_def)
next
  case (Inr d)
  show ?thesis
  proof (cases d)
    case None
    with Inr show ?thesis by (simp add: handle_video_phase1_def)
  next
    case (Some wh)
    obtain ow oh where wh: "wh = (ow, oh)" by (cases wh)
    show ?thesis
    proof (cases "choose_rect E src ow oh")
      case (Inl e)
      with Inr Some wh show ?thesis by (simp add: handle_video_phase1_def)
    next
      case (Inr rm)
      obtain rect mode where rm: "rm = (rect, mode)" by (cases rm)
      have run: "handle_video_phase1 E src s =
                   crop_or_copy E src (CROPPED_DIR @ filename src) rect mode ow oh s"
        using \<open>probe_dimensions E src = Inr d\<close> Some wh Inr rm
        by (simp add: handle_video_phase1_def)
      have nn: "0 \<le> rect_x rect \<and> 0 \<le> rect_y rect"
        using choose_rect_nonneg [OF assms] Inr rm by simp
      show ?thesis
        using nn is_good_crop_valid [of rect ow oh]
        by (simp add: run crop_or_copy_calls)
    qed
  qed
qed

lemma filename_dst: "src \<noteq> [] \<Longrightarrow> filename (CROPPED_DIR @ filename src) = filename src"
  by (simp add: filename_def)

lemma extension_dst:
  "src \<noteq> [] \<Longrightarrow> extension (CROPPED_DIR @ filename src) = extension src
     \<and> stem (CROPPED_DIR @ filename src) = stem src"
  by (simp add: extension_def stem_def filename_def)

text \<open>
  C7 (amended). For an mp4 video whose file exists and is not itself the intermediate
  file, and a crop command that has written its output whenever it exits with status 0:
  when the dimensions are probed and detection completes, the handler returns a status
  and leaves exactly one file changed, the mp4 file of the same stem in the intermediate
  directory; it is either what the crop command wrote (status \<^verbatim>\<open>crop[mode]\<close>) or a
  copy of the original (status \<^verbatim>\<open>copy\<close> or \<^verbatim>\<open>copy_after_error\<close>). When ffprobe
  yields no usable dimensions the handler returns \<^verbatim>\<open>error_dimensions\<close> and leaves the
  file system as it was.
\<close>

theorem C7_one_intermediate_file:
  assumes fil: "files s src = Some bytes"
    and dst: "dst = CROPPED_DIR @ filename src" and ne: "src \<noteq> dst" and src: "src \<noteq> []"
    and mp4: "extension src = ''.mp4''"
    and ffmpeg: "\<forall>cmd. fst (ext_system E cmd) = 0 \<longrightarrow> snd (ext_system E cmd) \<noteq> None"
  shows "(\<forall>ow oh rect mode.
            probe_dimensions E src = Inr (Some (ow, oh))
            \<and> choose_rect E src ow oh = Inr (rect, mode) \<longrightarrow>
            (\<exists>status. fst (handle_video_phase1 E src s) = Inr status
               \<and> files (snd (handle_video_phase1 E src s)) dst \<noteq> None
               \<and> (\<forall>p. p \<noteq> dst \<longrightarrow> files (snd (handle_video_phase1 E src s)) p = files s p)
               \<and> butlast dst = CROPPED_DIR \<and> extension dst = ''.mp4'' \<and> stem dst = stem src
               \<and> (status = ''crop['' @ mode @ '']''
                   \<or> (status = ''copy'' \<or> status = ''copy_after_error'')
                      \<and> files (snd (handle_video_phase1 E src s)) dst = Some bytes)))
       \<and> (probe_dimensions E src = Inr None \<longrightarrow>
            handle_video_phase1 E src s = (Inr ''error_dimensions'', s))"
proof (intro conjI allI impI)
  fix ow oh rect mode
  assume a: "probe_dimensions E src = Inr (Some (ow, oh))
             \<and> choose_rect E src ow oh = Inr (rect, mode)"
  then have dims: "probe_dimensions E src = Inr (Some (ow, oh))"
    and rect: "choose_rect E src ow oh = Inr (rect, mode)" by simp_all
  let ?H = "handle_video_phase1 E src s"
  have run: "?H = crop_or_copy E src dst rect mode ow oh s"
    by (simp add: handle_video_phase1_run [OF dims rect] dst)
  have other: "\<forall>p. p \<noteq> dst \<longrightarrow> files (snd ?H) p = files s p"
    by (simp add: run crop_or_copy_files_other)
  have name: "butlast dst = CROPPED_DIR \<and> extension dst = ''.mp4'' \<and> stem dst = stem src"
    using src extension_dst [OF src] mp4 by (simp add: dst filename_def butlast_append)
  have "\<exists>status. fst ?H = Inr status \<and> files (snd ?H) dst \<noteq> None
          \<and> (status = ''crop['' @ mode @ '']''
               \<or> (status = ''copy'' \<or> status = ''copy_after_error'')
                  \<and> files (snd ?H) dst = Some bytes)"
  proof (cases "is_good_crop rect ow oh")
    case False
    show ?thesis
      by (simp add: run crop_or_copy_not_good [OF False fil ne])
  next
    case True
    show ?thesis
    proof (cases "fst (crop_gpu E src dst rect ow oh s)")
      case (Inl e)
      show ?thesis
        using crop_or_copy_crop_fails [OF True fil ne Inl, of mode] by (simp add: run)
    next
      case (Inr u)
      show ?thesis
        using crop_gpu_success_written [OF Inr ffmpeg]
        by (simp add: run crop_or_copy_crop_ok [OF True Inr])
    qed
  qed
  with other name
  show "\<exists>status. fst ?H = Inr status
               \<and> files (snd ?H) dst \<noteq> None
               \<and> (\<forall>p. p \<noteq> dst \<longrightarrow> files (snd ?H) p = files s p)
               \<and> butlast dst = CROPPED_DIR \<and> extension dst = ''.mp4'' \<and> stem dst = stem src
               \<and> (status = ''crop['' @ mode @ '']''
                   \<or> (status = ''copy'' \<or> status = ''copy_after_error'')
                      \<and> files (snd ?H) dst = Some bytes)"
    by blast
next
  assume "probe_dimensions E src = Inr None"
  then show "handle_video_phase1 E src s = (Inr ''error_dimensions'', s)"
    by (simp add: handle_video_phase1_def)
qed

text \<open>Evaluations for the witnesses.\<close>

lemma dims_letterboxed: "probe_dimensions letterboxed clip = Inr (Some (1280, 720))"
  by code_simp
lemma dims_crop_fails: "probe_dimensions crop_fails clip = Inr (Some (1280, 720))"
  by code_simp
lemma dims_borderless: "probe_dimensions borderless clip = Inr (Some (1280, 720))"
  by code_simp
lemma choose_letterboxed:
  "choose_rect letterboxed clip 1280 720 = Inr (mk_rect 0 76 1284 568 True, ''ffmpeg'')"
  by code_simp
lemma choose_crop_fails:
  "choose_rect crop_fails clip 1280 720 = Inr (mk_rect 0 76 1284 568 True, ''ffmpeg'')"
  by code_simp
lemma detect_crop_fails:
  "detect_crop_ffmpeg crop_fails clip = Inr (mk_rect 0 76 1284 568 True)"
  by code_simp
lemma choose_borderless:
  "choose_rect borderless clip 1280 720 = Inr (mk_rect 0 0 1284 724 True, ''ffmpeg'')"
  by code_simp
lemma detect_borderless:
  "detect_crop_ffmpeg borderless clip = Inr (mk_rect 0 0 1284 724 True)"
  by code_simp
lemma good_letterboxed: "is_good_crop (mk_rect 0 76 1284 568 True) 1280 720"
  by code_simp
lemma not_good_borderless:
  "\<not> is_good_crop (mk_rect 0 0 1284 724 True) 1280 720
   \<and> \<not> is_good_crop (detect_gradient borderless clip 1280 720) 1280 720"
  by code_simp
lemma disk_clip: "files disk clip = Some ''original''"
  by (simp add: disk_def)
lemma clip_dst: "[''..'', ''tmp'', ''clip.mkv''] = CROPPED_DIR @ filename clip"
  by (simp add: CROPPED_DIR_def filename_def clip_def)
lemma clip_ne: "clip \<noteq> [''..'', ''tmp'', ''clip.mkv'']"
  by (simp add: clip_def)
lemma codec_crop_fails: "ffprobe_val crop_fails clip ''codec_name'' = Inr ''h264''"
  by code_simp

text \<open>C3, at the clip whose crop command fails and at the clip without borders.\<close>

theorem C3_witness:
  "fst (handle_video_phase1 crop_fails clip disk) = Inr ''copy_after_error''
   \<and> files (snd (handle_video_phase1 crop_fails clip disk)) [''..'', ''tmp'', ''clip.mkv'']
       = Some ''original''
   \<and> fst (handle_video_phase1 borderless clip disk) = Inr ''copy''
   \<and> files (snd (handle_video_phase1 borderless clip disk)) [''..'', ''tmp'', ''clip.mkv'']
       = Some ''original''"
proof -
  have nz: "\<exists>codec. ffprobe_val crop_fails clip ''codec_name'' = Inr codec
          \<and> fst (ext_system crop_fails (crop_gpu_command (ext_has_crop_cuda crop_fails) codec
                    clip [''..'', ''tmp'', ''clip.mkv''] (mk_rect 0 76 1284 568 True) 1280 720)) \<noteq> 0"
    using codec_crop_fails by (simp add: crop_fails_def)
  from C3_fallback_copy [OF dims_crop_fails choose_crop_fails detect_crop_fails disk_clip
      clip_dst clip_ne] good_letterboxed nz
  have a: "fst (handle_video_phase1 crop_fails clip disk) = Inr ''copy_after_error''
     \<and> files (snd (handle_video_phase1 crop_fails clip disk)) [''..'', ''tmp'', ''clip.mkv'']
       = Some ''original''"
    by blast
  from C3_fallback_copy [OF dims_borderless choose_borderless detect_borderless disk_clip
      clip_dst clip_ne] not_good_borderless
  have b: "fst (handle_video_phase1 borderless clip disk) = Inr ''copy''
     \<and> files (snd (handle_video_phase1 borderless clip disk)) [''..'', ''tmp'', ''clip.mkv'']
       = Some ''original''"
    by blast
  from a b show ?thesis by blast
qed

text \<open>
  C7 (as stated, refuted): when ffprobe prints no dimensions for the mp4 file the handler
  returns \<^verbatim>\<open>error_dimensions\<close> and the intermediate directory holds no file for it.
\<close>

theorem C7_counterexample:
  "fst (handle_video_phase1 unprobed movie movie_disk) = Inr ''error_dimensions''
   \<and> files (snd (handle_video_phase1 unprobed movie movie_disk)) (CROPPED_DIR @ filename movie)
       = None
   \<and> files movie_disk movie = Some ''original''"
  by code_simp

lemma dims_movie: "probe_dimensions letterboxed movie = Inr (Some (1280, 720))"
  by code_simp
lemma choose_movie:
  "choose_rect letterboxed movie 1280 720 = Inr (mk_rect 0 76 1284 568 True, ''ffmpeg'')"
  by code_simp
lemma movie_dst: "[''..'', ''tmp'', ''movie.mp4''] = CROPPED_DIR @ filename movie"
  by (simp add: CROPPED_DIR_def filename_def movie_def)
lemma movie_ne: "movie \<noteq> [''..'', ''tmp'', ''movie.mp4'']"
  by (simp add: movie_def)
lemma movie_mp4: "extension movie = ''.mp4''"
  by code_simp
lemma movie_disk_movie: "files movie_disk movie = Some ''original''"
  by (simp add: movie_disk_def)
lemma dims_unprobed: "probe_dimensions unprobed movie = Inr None"
  by code_simp

text \<open>C7, at the letterboxed mp4 file, which is cropped into \<^verbatim>\<open>../tmp/movie.mp4\<close>, and
  at the same file when ffprobe prints nothing.\<close>

theorem C7_witness:
  "fst (handle_video_phase1 letterboxed movie movie_disk) = Inr ''crop[ffmpeg]''
   \<and> files (snd (handle_video_phase1 letterboxed movie movie_disk)) [''..'', ''tmp'', ''movie.mp4'']
       = Some ''cropped''
   \<and> files (snd (handle_video_phase1 letterboxed movie movie_disk)) movie = Some ''original''
   \<and> extension [''..'', ''tmp'', ''movie.mp4''] = ''.mp4''
   \<and> stem [''..'', ''tmp'', ''movie.mp4''] = stem movie
   \<and> handle_video_phase1 unprobed movie movie_disk = (Inr ''error_dimensions'', movie_disk)"
proof -
  have c: "\<forall>cmd. fst (ext_system letterboxed cmd) = 0 \<longrightarrow> snd (ext_system letterboxed cmd) \<noteq> None"
    by (simp add: letterboxed_def)
  have c': "\<forall>cmd. fst (ext_system unprobed cmd) = 0 \<longrightarrow> snd (ext_system unprobed cmd) \<noteq> None"
    by (simp add: unprobed_def letterboxed_def)
  have n: "movie \<noteq> []" by (simp add: movie_def)
  have e1: "fst (handle_video_phase1 letterboxed movie movie_disk) = Inr ''crop[ffmpeg]''"
    by code_simp
  have e2: "files (snd (handle_video_phase1 letterboxed movie movie_disk))
              [''..'', ''tmp'', ''movie.mp4''] = Some ''cropped''"
    by code_simp
  note t1 = C7_one_intermediate_file [OF movie_disk_movie movie_dst movie_ne n movie_mp4 c]
  note t2 = C7_one_intermediate_file [OF movie_disk_movie movie_dst movie_ne n movie_mp4 c']
  from t1 dims_movie choose_movie
  have a: "(\<forall>p. p \<noteq> [''..'', ''tmp'', ''movie.mp4''] \<longrightarrow>
               files (snd (handle_video_phase1 letterboxed movie movie_disk)) p
                 = files movie_disk p)
           \<and> extension [''..'', ''tmp'', ''movie.mp4''] = ''.mp4''
           \<and> stem [''..'', ''tmp'', ''movie.mp4''] = stem movie"
    by blast
  from t2 dims_unprobed
  have b: "handle_video_phase1 unprobed movie movie_disk = (Inr ''error_dimensions'', movie_disk)"
    by blast
  from a b e1 e2 movie_ne movie_disk_movie show ?thesis by auto
qed

text \<open>C9, at the clip that the gradient detector crops.\<close>

theorem C9_witness:
  "crop_calls (snd (handle_video_phase1 pillarboxed clip disk)) =
     [(clip, [''..'', ''tmp'', ''clip.mkv''], mk_rect 100 0 1080 720 True, 1280, 720)]
   \<and> is_good_crop (mk_rect 100 0 1080 720 True) 1280 720"
proof -
  have g: "\<forall>cs. ext_gradient pillarboxed clip = Contours cs \<longrightarrow>
             (\<forall>b\<in>set cs. 0 \<le> cv_x b \<and> 0 \<le> cv_y b)"
    by (simp add: pillarboxed_def)
  have e: "crop_calls (snd (handle_video_phase1 pillarboxed clip disk)) =
     [(clip, [''..'', ''tmp'', ''clip.mkv''], mk_rect 100 0 1080 720 True, 1280, 720)]"
    by code_simp
  have d: "crop_calls disk = []" by (simp add: disk_def)
  from C9_only_good_rects_cropped [OF g, of disk] e d
  show ?thesis by auto
qed

subsection \<open>Even crop sizes\<close>

lemma make_even_cases: "make_even v = (if even v then v else wrap32 (v + 1))"
proof -
  have "v smod 2 = 0 \<longleftrightarrow> even v"
    by (auto simp: smod_int_alt_def sgn_if elim: evenE oddE)
  then show ?thesis by (simp add: make_even_def)
qed

lemma even_make_even: "even (make_even v)"
  by (simp add: make_even_cases even_wrap32)










text \<open>A rectangle of odd size, which the handler never passes, would keep its size in
  the branch that hands the crop to the cuvid decoder.\<close>

lemma cropped_size_cuvid_odd:
  "cropped_size (crop_gpu_command False ''h264'' clip (CROPPED_DIR @ filename clip)
                   (mk_rect 0 0 101 51 True) 200 100) 200 100 = (101, 51)"
  by code_simp




subsection \<open>The uniform-border trim\<close>

lemma scan_up_result:
  "scan_up blank i n dflt = dflt \<or>
   (i \<le> scan_up blank i n dflt \<and> scan_up blank i n dflt < n \<and> \<not> blank (scan_up blank i n dflt))"
proof (induction blank i n dflt rule: scan_up.induct)
  case (1 blank i n dflt)
  show ?case
  proof (cases "i < n \<and> blank i")
    case True
    then have "scan_up blank i n dflt = scan_up blank (i + 1) n dflt"
      by (simp add: scan_up.simps [of blank i])
    with "1.IH" True show ?thesis by auto
  next
    case False
    then show ?thesis by (auto simp: scan_up.simps [of blank i])
  qed
qed

lemma scan_down_result:
  "scan_down blank i dflt = dflt \<or>
   (0 \<le> scan_down blank i dflt \<and> scan_down blank i dflt \<le> i \<and> \<not> blank (scan_down blank i dflt))"
proof (induction blank i dflt rule: scan_down.induct)
  case (1 blank i dflt)
  show ?case
  proof (cases "0 \<le> i \<and> blank i")
    case True
    then have "scan_down blank i dflt = scan_down blank (i - 1) dflt"
      by (simp add: scan_down.simps [of blank i])
    with "1.IH" True show ?thesis by auto
  next
    case False
    then show ?thesis by (auto simp: scan_down.simps [of blank i])
  qed
qed

lemma scan_up_all_blank:
  "\<forall>j. i \<le> j \<and> j < n \<longrightarrow> blank j \<Longrightarrow> scan_up blank i n dflt = dflt"
  using scan_up_result [of blank i n dflt] by auto

lemma scan_down_all_blank:
  "\<forall>j. 0 \<le> j \<and> j \<le> i \<longrightarrow> blank j \<Longrightarrow> scan_down blank i dflt = dflt"
  using scan_down_result [of blank i dflt] by auto

text \<open>
  C10. When the border-trim detector returns a valid rectangle, the image is not empty,
  the rectangle lies inside it (x and y are non-negative, x + width is at most the number
  of columns, y + height at most the number of rows) and is at least 2 wide and 2 high;
  on an image whose every column and every row is blank the detector returns an invalid
  rectangle.
\<close>

theorem C10_image_crop_in_bounds:
  "(rect_valid (detect_image_crop_cv img tol) \<longrightarrow>
      0 < mat_rows img \<and> 0 < mat_cols img
      \<and> 0 \<le> rect_x (detect_image_crop_cv img tol)
      \<and> 0 \<le> rect_y (detect_image_crop_cv img tol)
      \<and> rect_x (detect_image_crop_cv img tol) + rect_w (detect_image_crop_cv img tol)
           \<le> mat_cols img
      \<and> rect_y (detect_image_crop_cv img tol) + rect_h (detect_image_crop_cv img tol)
           \<le> mat_rows img
      \<and> 2 \<le> rect_w (detect_image_crop_cv img tol)
      \<and> 2 \<le> rect_h (detect_image_crop_cv img tol))
   \<and> ((\<forall>c. 0 \<le> c \<and> c < mat_cols img \<longrightarrow> is_blank_line (mat_col img c) tol)
       \<and> (\<forall>r. 0 \<le> r \<and> r < mat_rows img \<longrightarrow> is_blank_line (mat_row img r) tol)
      \<longrightarrow> \<not> rect_valid (detect_image_crop_cv img tol))"
proof (cases "mat_empty img")
  case True
  then show ?thesis by (simp add: detect_image_crop_cv_def invalid_rect_def mk_rect_def)
next
  case False
  define w where "w = mat_cols img"
  define h where "h = mat_rows img"
  define bc where "bc = (\<lambda>c. is_blank_line (mat_col img c) tol)"
  define br where "br = (\<lambda>r. is_blank_line (mat_row img r) tol)"
  define x0 where "x0 = scan_up bc 0 w w"
  define x1 where "x1 = scan_down bc (w - 1) 0"
  define y0 where "y0 = scan_up br 0 h h"
  define y1 where "y1 = scan_down br (h - 1) 0"
  have pos: "0 < w" "0 < h" using False by (simp_all add: mat_empty_def w_def h_def)
  have res: "detect_image_crop_cv img tol =
      (if x0 \<ge> x1 \<or> y0 \<ge> y1 then invalid_rect
       else mk_rect x0 y0 (x1 - x0 + 1) (y1 - y0 + 1) True)"
    using False
    by (simp add: detect_image_crop_cv_def Let_def x0_def x1_def y0_def y1_def bc_def br_def
        w_def h_def)
  have bx0: "0 \<le> x0" using scan_up_result [of bc 0 w w] pos by (auto simp: x0_def)
  have by0: "0 \<le> y0" using scan_up_result [of br 0 h h] pos by (auto simp: y0_def)
  have bx1: "x1 \<le> w - 1" using scan_down_result [of bc "w - 1" 0] pos by (auto simp: x1_def)
  have by1: "y1 \<le> h - 1" using scan_down_result [of br "h - 1" 0] pos by (auto simp: y1_def)
  have a: "rect_valid (detect_image_crop_cv img tol) \<longrightarrow>
      0 < mat_rows img \<and> 0 < mat_cols img
      \<and> 0 \<le> rect_x (detect_image_crop_cv img tol)
      \<and> 0 \<le> rect_y (detect_image_crop_cv img tol)
      \<and> rect_x (detect_image_crop_cv img tol) + rect_w (detect_image_crop_cv img tol)
           \<le> mat_cols img
      \<and> rect_y (detect_image_crop_cv img tol) + rect_h (detect_image_crop_cv img tol)
           \<le> mat_rows img
      \<and> 2 \<le> rect_w (detect_image_crop_cv img tol)
      \<and> 2 \<le> rect_h (detect_image_crop_cv img tol)"
    using bx0 by0 bx1 by1 pos
    by (auto simp: res invalid_rect_def mk_rect_def w_def h_def)
  have b: "(\<forall>c. 0 \<le> c \<and> c < mat_cols img \<longrightarrow> is_blank_line (mat_col img c) tol)
       \<and> (\<forall>r. 0 \<le> r \<and> r < mat_rows img \<longrightarrow> is_blank_line (mat_row img r) tol)
      \<longrightarrow> \<not> rect_valid (detect_image_crop_cv img tol)"
  proof
    assume all: "(\<forall>c. 0 \<le> c \<and> c < mat_cols img \<longrightarrow> is_blank_line (mat_col img c) tol)
       \<and> (\<forall>r. 0 \<le> r \<and> r < mat_rows img \<longrightarrow> is_blank_line (mat_row img r) tol)"
    then have "\<forall>j. 0 \<le> j \<and> j < w \<longrightarrow> bc j" by (simp add: bc_def w_def)
    then have "x0 = w" unfolding x0_def by (rule scan_up_all_blank)
    with bx1 have "x0 \<ge> x1" by simp
    then show "\<not> rect_valid (detect_image_crop_cv img tol)"
      by (simp add: res invalid_rect_def mk_rect_def)
  qed
  from a b show ?thesis by blast
qed

lemma framed_crop: "detect_image_crop_cv framed TOLERANCE = mk_rect 1 1 2 2 True"
  by code_simp

lemma all_black_blank:
  "(\<forall>c. 0 \<le> c \<and> c < mat_cols all_black \<longrightarrow> is_blank_line (mat_col all_black c) TOLERANCE)
   \<and> (\<forall>r. 0 \<le> r \<and> r < mat_rows all_black \<longrightarrow> is_blank_line (mat_row all_black r) TOLERANCE)"
proof -
  have l: "is_blank_line [black, black, black, black] TOLERANCE" by code_simp
  have u: "[0..<4] = [0, 1, 2, 3::nat]" by code_simp
  have m: "map (\<lambda>i. black) [0..<4] = [black, black, black, black]"
    by (simp only: u list.map)
  show ?thesis
    using l by (simp add: all_black_def mat_col_def mat_row_def m)
qed

text \<open>C10, at the framed image, which is trimmed to its 2 x 2 core, and at the black
  image.\<close>

theorem C10_witness:
  "rect_valid (detect_image_crop_cv framed TOLERANCE)
   \<and> rect_x (detect_image_crop_cv framed TOLERANCE)
        + rect_w (detect_image_crop_cv framed TOLERANCE) \<le> mat_cols framed
   \<and> rect_y (detect_image_crop_cv framed TOLERANCE)
        + rect_h (detect_image_crop_cv framed TOLERANCE) \<le> mat_rows framed
   \<and> \<not> rect_valid (detect_image_crop_cv all_black TOLERANCE)"
proof -
  have v: "rect_valid (detect_image_crop_cv framed TOLERANCE)"
    by (simp add: framed_crop mk_rect_def)
  from C10_image_crop_in_bounds [of framed TOLERANCE] v
       C10_image_crop_in_bounds [of all_black TOLERANCE] all_black_blank
  show ?thesis by blast
qed

lemma blank_loop_iff:
  "blank_loop (m0, m1, m2) tol ps \<longleftrightarrow>
     (\<forall>(p0, p1, p2)\<in>set ps.
        \<bar>uint p0 - cast_int m0\<bar> + \<bar>uint p1 - cast_int m1\<bar> + \<bar>uint p2 - cast_int m2\<bar> \<le> tol * 3)"
proof (induction ps)
  case Nil
  show ?case by simp
next
  case (Cons p ps)
  obtain p0 p1 p2 where p: "p = (p0, p1, p2)" by (cases p)
  show ?case using Cons.IH by (auto simp: p Let_def)
qed

text \<open>
  C6 (as stated, refuted): the line of the two pixels (12, 0, 0) and (0, 0, 0) has mean
  colour (6, 0, 0); both pixels deviate by 6 in the first channel, more than the
  tolerance 5, and the line is classified as blank.
\<close>

theorem C6_counterexample:
  "is_blank_line faint_line TOLERANCE \<and> \<not> within_tolerance_per_channel faint_line TOLERANCE"
  by code_simp

text \<open>
  C6 (amended). A line is classified as blank if and only if, for every pixel, the sum
  over the three channels of the absolute deviations from the mean colour of the line,
  each mean truncated to an integer, is at most three times the tolerance. A line whose
  pixels all stay within the tolerance of the truncated mean in each channel is
  therefore blank; the converse does not hold.
\<close>

theorem C6_blank_line_sum_test:
  "(is_blank_line line tol \<longleftrightarrow>
      (case cv_mean line of (m0, m1, m2) \<Rightarrow>
         \<forall>(p0, p1, p2)\<in>set line.
           \<bar>uint p0 - cast_int m0\<bar> + \<bar>uint p1 - cast_int m1\<bar> + \<bar>uint p2 - cast_int m2\<bar>
             \<le> 3 * tol))
   \<and> ((case cv_mean line of (m0, m1, m2) \<Rightarrow>
         \<forall>(p0, p1, p2)\<in>set line.
           \<bar>uint p0 - cast_int m0\<bar> \<le> tol \<and> \<bar>uint p1 - cast_int m1\<bar> \<le> tol
           \<and> \<bar>uint p2 - cast_int m2\<bar> \<le> tol)
       \<longrightarrow> is_blank_line line tol)"
proof -
  obtain m0 m1 m2 where m: "cv_mean line = (m0, m1, m2)" by (cases "cv_mean line")
  have a: "is_blank_line line tol \<longleftrightarrow>
      (\<forall>(p0, p1, p2)\<in>set line.
           \<bar>uint p0 - cast_int m0\<bar> + \<bar>uint p1 - cast_int m1\<bar> + \<bar>uint p2 - cast_int m2\<bar>
             \<le> 3 * tol)"
    by (cases "line = []") (simp_all add: is_blank_line_def m blank_loop_iff mult.commute)
  have b: "(\<forall>(p0, p1, p2)\<in>set line.
           \<bar>uint p0 - cast_int m0\<bar> \<le> tol \<and> \<bar>uint p1 - cast_int m1\<bar> \<le> tol
           \<and> \<bar>uint p2 - cast_int m2\<bar> \<le> tol)
       \<longrightarrow> is_blank_line line tol"
    unfolding a by fastforce
  from a b show ?thesis by (simp add: m)
qed

text \<open>C6, at the faint line, which is blank, and at a line of a white and a black pixel,
  which is not.\<close>

theorem C6_witness:
  "is_blank_line faint_line TOLERANCE \<and> \<not> is_blank_line [white, black] TOLERANCE"
proof -
  have m1: "cv_mean faint_line = (6, 0, 0)" by code_simp
  have m2: "cv_mean [white, black] = (255 / 2, 255 / 2, 255 / 2)" by code_simp
  have c1: "cast_int 6 = 6" "cast_int 0 = 0" "cast_int (255 / 2) = 127" by code_simp+
  note t1 = C6_blank_line_sum_test [of faint_line TOLERANCE, unfolded m1 prod.case]
  note t2 = C6_blank_line_sum_test [of "[white, black]" TOLERANCE, unfolded m2 prod.case]
  from t1 have a: "is_blank_line faint_line TOLERANCE"
    by (simp add: c1 faint_line_def TOLERANCE_def)
  from t2 have b: "\<not> is_blank_line [white, black] TOLERANCE"
    by (simp add: c1 white_def black_def TOLERANCE_def)
  from a b show ?thesis by blast
qed

subsection \<open>The presentation clock\<close>

lemma wrap64_id: "- (2 ^ 63) \<le> v \<Longrightarrow> v < 2 ^ 63 \<Longrightarrow> wrap64 v = v"
  by (simp add: wrap64_def)

lemma decode_pts_step_present:
  assumes "AV_NOPTS_VALUE < effective_ts f"
    and "lp = AV_NOPTS_VALUE \<or> (AV_NOPTS_VALUE < lp \<and> lp + 1 < 2 ^ 63)"
  shows "decode_pts_step lp f =
           (if lp \<noteq> AV_NOPTS_VALUE \<and> effective_ts f \<le> lp
            then (lp + 1, lp + 1) else (effective_ts f, effective_ts f))"
proof -
  have "lp \<noteq> AV_NOPTS_VALUE \<Longrightarrow> wrap64 (lp + 1) = lp + 1"
    using assms(2) by (intro wrap64_id) (auto simp: AV_NOPTS_VALUE_def)
  then show ?thesis
    using assms(1) by (auto simp: decode_pts_step_def Let_def)
qed

lemma decode_loop_pts_length: "length (fst (decode_loop_pts lp fs)) = length fs"
proof (induction fs arbitrary: lp)
  case Nil
  show ?case by simp
next
  case (Cons f fs)
  obtain p l1 where s: "decode_pts_step lp f = (p, l1)" by (cases "decode_pts_step lp f")
  show ?case using Cons.IH [of l1] by (auto simp: s split: prod.splits)
qed

lemma decode_loop_pts_invariant:
  assumes "\<forall>f\<in>set fs. AV_NOPTS_VALUE < effective_ts f \<and> effective_ts f \<le> B"
    and "lp = AV_NOPTS_VALUE \<or> (AV_NOPTS_VALUE < lp \<and> lp \<le> B)"
    and "B + int (length fs) < 2 ^ 63"
  shows "sorted_wrt (<) (fst (decode_loop_pts lp fs))
       \<and> (\<forall>p\<in>set (fst (decode_loop_pts lp fs)). lp < p)
       \<and> (\<forall>i<length fs. fst (decode_loop_pts lp fs) ! i =
             (let prev = (if i = 0 then lp else fst (decode_loop_pts lp fs) ! (i - 1))
              in if prev \<noteq> AV_NOPTS_VALUE \<and> effective_ts (fs ! i) \<le> prev
                 then prev + 1 else effective_ts (fs ! i)))"
  using assms
proof (induction fs arbitrary: lp B)
  case Nil
  show ?case by simp
next
  case (Cons f fs)
  have ef: "AV_NOPTS_VALUE < effective_ts f" "effective_ts f \<le> B"
    using Cons.prems(1) by simp_all
  have room: "lp = AV_NOPTS_VALUE \<or> (AV_NOPTS_VALUE < lp \<and> lp + 1 < 2 ^ 63)"
    using Cons.prems(2,3) by auto
  define p where "p = (if lp \<noteq> AV_NOPTS_VALUE \<and> effective_ts f \<le> lp
                        then lp + 1 else effective_ts f)"
  have step: "decode_pts_step lp f = (p, p)"
    by (simp add: decode_pts_step_present [OF ef(1) room] p_def)
  have p_gt: "lp < p" using ef(1) Cons.prems(2) by (auto simp: p_def)
  have p_le: "AV_NOPTS_VALUE < p" "p \<le> B + 1"
    using ef Cons.prems(2) by (auto simp: p_def)
  have rest: "\<forall>g\<in>set fs. AV_NOPTS_VALUE < effective_ts g \<and> effective_ts g \<le> B + 1"
    using Cons.prems(1) by auto
  have lastp: "p = AV_NOPTS_VALUE \<or> (AV_NOPTS_VALUE < p \<and> p \<le> B + 1)"
    using p_le by simp
  have bound: "(B + 1) + int (length fs) < 2 ^ 63"
    using Cons.prems(3) by simp
  note IH = Cons.IH [OF rest lastp bound]
  define out where "out = fst (decode_loop_pts p fs)"
  have run: "fst (decode_loop_pts lp (f # fs)) = p # out"
    by (simp add: step out_def split: prod.splits)
  have s: "sorted_wrt (<) (p # out)"
    using IH by (simp add: out_def)
  have g: "\<forall>q\<in>set (p # out). lp < q"
    using IH p_gt by (auto simp: out_def)
  have ix: "\<forall>i<length (f # fs). (p # out) ! i =
             (let prev = (if i = 0 then lp else (p # out) ! (i - 1))
              in if prev \<noteq> AV_NOPTS_VALUE \<and> effective_ts ((f # fs) ! i) \<le> prev
                 then prev + 1 else effective_ts ((f # fs) ! i))"
  proof (intro allI impI)
    fix i assume i: "i < length (f # fs)"
    show "(p # out) ! i =
             (let prev = (if i = 0 then lp else (p # out) ! (i - 1))
              in if prev \<noteq> AV_NOPTS_VALUE \<and> effective_ts ((f # fs) ! i) \<le> prev
                 then prev + 1 else effective_ts ((f # fs) ! i))"
    proof (cases i)
      case 0
      then show ?thesis by (simp add: p_def)
    next
      case (Suc j)
      with i have j: "j < length fs" by simp
      from IH j have a:
        "out ! j = (let prev = (if j = 0 then p else out ! (j - 1))
              in if prev \<noteq> AV_NOPTS_VALUE \<and> effective_ts (fs ! j) \<le> prev
                 then prev + 1 else effective_ts (fs ! j))"
        by (simp add: out_def)
      have b: "(p # out) ! (Suc j - 1) = (if j = 0 then p else out ! (j - 1))"
        by (cases j) simp_all
      have c: "(p # out) ! Suc j = out ! j" "(f # fs) ! Suc j = fs ! j" "Suc j \<noteq> 0"
        by simp_all
      show ?thesis
        unfolding Suc by (simp only: a b c if_False)
    qed
  qed
  from s g ix show ?case by (simp only: run)
qed

lemma pipeline_pts_no_flush: "pipeline_pts frames None = decoded_pts frames"
  by (simp add: pipeline_pts_def decoded_pts_def split: prod.splits)

text \<open>
  C1 (as stated, refuted): a frame that has neither \<open>pts\<close> nor \<open>pkt_dts\<close> leaves the
  main loop with the sentinel \<^verbatim>\<open>AV_NOPTS_VALUE\<close>, not with previous + 1; after a frame
  stamped 5 the sequence handed on is 5, \<^verbatim>\<open>AV_NOPTS_VALUE\<close>, which is not increasing.
\<close>

theorem C1_counterexample:
  "pipeline_pts untimed None = [5, AV_NOPTS_VALUE]
   \<and> \<not> sorted_wrt (<) (pipeline_pts untimed None)"
  by code_simp

text \<open>
  C1 (amended). When every frame received in the main decode loop offers a timestamp
  (its \<open>pts\<close>, or its \<open>pkt_dts\<close> when the \<open>pts\<close> is missing), with room below the
  largest 64-bit value for the increments, the timestamps handed to the filter graph
  are strictly increasing, one per frame: a frame whose timestamp is not greater than
  the one handed on before it gets that one plus 1, every other frame keeps its
  timestamp unchanged.
\<close>

theorem C1_decode_loop_strictly_increasing:
  assumes "\<forall>f\<in>set frames. AV_NOPTS_VALUE < effective_ts f
             \<and> effective_ts f + int (length frames) < 2 ^ 63"
  shows "length (decoded_pts frames) = length frames
       \<and> sorted_wrt (<) (decoded_pts frames)
       \<and> (\<forall>i<length frames.
            decoded_pts frames ! i =
              (if 0 < i \<and> effective_ts (frames ! i) \<le> decoded_pts frames ! (i - 1)
               then decoded_pts frames ! (i - 1) + 1
               else effective_ts (frames ! i)))"
proof -
  define B :: int where "B = 2 ^ 63 - 1 - int (length frames)"
  have h1: "\<forall>f\<in>set frames. AV_NOPTS_VALUE < effective_ts f \<and> effective_ts f \<le> B"
    using assms by (auto simp: B_def)
  have h2: "AV_NOPTS_VALUE = AV_NOPTS_VALUE \<or> (AV_NOPTS_VALUE < AV_NOPTS_VALUE \<and> AV_NOPTS_VALUE \<le> B)"
    by simp
  have h3: "B + int (length frames) < 2 ^ 63" by (simp add: B_def)
  note inv = decode_loop_pts_invariant [OF h1 h2 h3, folded decoded_pts_def]
  have len: "length (decoded_pts frames) = length frames"
    by (simp add: decoded_pts_def decode_loop_pts_length)
  have gt: "\<forall>p\<in>set (decoded_pts frames). AV_NOPTS_VALUE < p" using inv by blast
  have ix: "\<forall>i<length frames.
            decoded_pts frames ! i =
              (if 0 < i \<and> effective_ts (frames ! i) \<le> decoded_pts frames ! (i - 1)
               then decoded_pts frames ! (i - 1) + 1
               else effective_ts (frames ! i))"
  proof (intro allI impI)
    fix i assume i: "i < length frames"
    from inv i have e: "decoded_pts frames ! i =
             (let prev = (if i = 0 then AV_NOPTS_VALUE else decoded_pts frames ! (i - 1))
              in if prev \<noteq> AV_NOPTS_VALUE \<and> effective_ts (frames ! i) \<le> prev
                 then prev + 1 else effective_ts (frames ! i))"
      by blast
    show "decoded_pts frames ! i =
              (if 0 < i \<and> effective_ts (frames ! i) \<le> decoded_pts frames ! (i - 1)
               then decoded_pts frames ! (i - 1) + 1
               else effective_ts (frames ! i))"
    proof (cases "i = 0")
      case True
      with e show ?thesis by simp
    next
      case False
      with i len have "decoded_pts frames ! (i - 1) \<in> set (decoded_pts frames)" by simp
      with gt have "decoded_pts frames ! (i - 1) \<noteq> AV_NOPTS_VALUE" by auto
      with e False show ?thesis by (simp add: Let_def)
    qed
  qed
  from len inv ix show ?thesis by blast
qed

lemma jittery_timed:
  "\<forall>f\<in>set jittery. AV_NOPTS_VALUE < effective_ts f
             \<and> effective_ts f + int (length jittery) < 2 ^ 63"
  by (simp add: jittery_def effective_ts_def AV_NOPTS_VALUE_def)

text \<open>C1, at the stream with a duplicate, a decrease and a frame without \<open>pts\<close>.\<close>

theorem C1_witness:
  "decoded_pts jittery = [10, 11, 12, 20, 30] \<and> sorted_wrt (<) (decoded_pts jittery)"
proof -
  have e: "decoded_pts jittery = [10, 11, 12, 20, 30]" by code_simp
  from C1_decode_loop_strictly_increasing [OF jittery_timed] e show ?thesis by blast
qed

text \<open>The flush loop repairs a missing timestamp only; a present one is passed on as it
  is, whatever came before it.\<close>

lemma flush_pts_step_present:
  "pts f \<noteq> AV_NOPTS_VALUE \<Longrightarrow> flush_pts_step lp f = (pts f, lp)"
  by (simp add: flush_pts_step_def)

lemma flush_pts_step_missing:
  "pts f = AV_NOPTS_VALUE \<Longrightarrow> AV_NOPTS_VALUE < lp \<Longrightarrow> lp + 1 < 2 ^ 63 \<Longrightarrow>
   flush_pts_step lp f = (lp + 1, lp + 1)"
  by (simp add: flush_pts_step_def wrap64_id AV_NOPTS_VALUE_def)

lemma flush_loop_passes_decrease:
  "pipeline_pts [\<lparr>pts = 10, pkt_dts = 10\<rparr>] (Some \<lparr>pts = 3, pkt_dts = 3\<rparr>) = [10, 3]"
  by code_simp

section \<open>Resource lifetime of the pipeline\<close>

subsection \<open>The primitives\<close>

lemma held_acquire [simp]: "held (acquire sl s) = insert sl (held s)"
  by (auto simp: acquire_def)

lemma held_release [simp]: "held (release sl s) = held s - {sl}"
  by (auto simp: release_def)

lemma leaked_release [simp]: "leaked (release sl s) = leaked s"
  by (simp add: release_def)

lemma no_leak_release [simp]: "no_leak (release sl s) = no_leak s"
  by (simp add: no_leak_def)

lemma no_leak_acquire [simp]: "no_leak (acquire sl s) = (no_leak s \<and> sl \<notin> held s)"
  by (auto simp: no_leak_def acquire_def)

lemma leaked_acquire: "sl \<notin> held s \<Longrightarrow> leaked (acquire sl s) = leaked s"
  by (simp add: acquire_def)

lemma held_move_ref:
  "held (move_ref a b s) = (if a \<in> held s \<and> a \<noteq> b then insert b (held s - {a}) else held s - {b})"
  by (auto simp: move_ref_def Let_def)


lemma card_kind_insert:
  "finite H \<Longrightarrow> sl \<notin> H \<Longrightarrow>
   card {x \<in> insert sl H. kind_of x = k} = card {x \<in> H. kind_of x = k} + (if kind_of sl = k then 1 else 0)"
proof -
  assume f: "finite H" and n: "sl \<notin> H"
  show ?thesis
  proof (cases "kind_of sl = k")
    case True
    then have "{x \<in> insert sl H. kind_of x = k} = insert sl {x \<in> H. kind_of x = k}" by auto
    with f n True show ?thesis by simp
  next
    case False
    then have "{x \<in> insert sl H. kind_of x = k} = {x \<in> H. kind_of x = k}" by auto
    with False show ?thesis by simp
  qed
qed

lemma card_kind_remove:
  "finite H \<Longrightarrow> sl \<in> H \<Longrightarrow>
   card {x \<in> H. kind_of x = k} = card {x \<in> H - {sl}. kind_of x = k} + (if kind_of sl = k then 1 else 0)"
  using card_kind_insert [of "H - {sl}" sl k] by (simp add: insert_absorb)

lemma holding_acquire:
  "finite (held s) \<Longrightarrow> sl \<notin> held s \<Longrightarrow>
   holding (acquire sl s) k = holding s k + (if kind_of sl = k then 1 else 0)"
  unfolding holding_def held_acquire by (rule card_kind_insert)

lemma holding_release:
  "finite (held s) \<Longrightarrow> sl \<in> held s \<Longrightarrow>
   holding s k = holding (release sl s) k + (if kind_of sl = k then 1 else 0)"
  unfolding holding_def held_release by (rule card_kind_remove)

lemma holding_cong: "held s = held s' \<Longrightarrow> holding s k = holding s' k"
  by (simp add: holding_def)

lemma balanced_acquire [simp]: "balanced (acquire sl s) = balanced s"
proof (cases "finite (held s)")
  case False
  then show ?thesis by (simp add: balanced_def)
next
  case fin: True
  show ?thesis
  proof (cases "sl \<in> held s")
    case True
    have h: "\<And>k. holding (acquire sl s) k = holding s k"
      using True by (intro holding_cong) auto
    have a: "acquired (acquire sl s) = (acquired s)(kind_of sl := acquired s (kind_of sl) + 1)"
      and l: "leaked (acquire sl s) = (leaked s)(kind_of sl := leaked s (kind_of sl) + 1)"
      and r: "released (acquire sl s) = released s"
      using True by (simp_all add: acquire_def)
    show ?thesis
      using fin by (auto simp: balanced_def h a l r insert_absorb True)
  next
    case False
    have a: "acquired (acquire sl s) = (acquired s)(kind_of sl := acquired s (kind_of sl) + 1)"
      and l: "leaked (acquire sl s) = leaked s"
      and r: "released (acquire sl s) = released s"
      using False by (simp_all add: acquire_def)
    show ?thesis
      using fin by (auto simp: balanced_def holding_acquire [OF fin False] a l r)
  qed
qed

lemma balanced_release [simp]: "balanced (release sl s) = balanced s"
proof (cases "sl \<in> held s")
  case False
  then show ?thesis by (simp add: release_def)
next
  case True
  show ?thesis
  proof (cases "finite (held s)")
    case False
    then show ?thesis by (simp add: balanced_def)
  next
    case fin: True
    have a: "acquired (release sl s) = acquired s"
      and r: "released (release sl s) = (released s)(kind_of sl := released s (kind_of sl) + 1)"
      using True by (simp_all add: release_def)
    show ?thesis
      using fin by (auto simp: balanced_def holding_release [OF fin True] a r)
  qed
qed

lemma count_drop:
  assumes "finite H" and "x \<in> H"
  shows "card {y \<in> H - {x}. kind_of y = k} + (if kind_of x = k then 1 else 0)
           = card {y \<in> H. kind_of y = k}"
  using card_kind_remove [OF assms, of k] by simp

lemma count_add:
  assumes "finite H" and "x \<notin> H"
  shows "card {y \<in> insert x H. kind_of y = k}
           = card {y \<in> H. kind_of y = k} + (if kind_of x = k then 1 else 0)"
  using card_kind_insert [OF assms, of k] by simp

lemma balanced_move_ref:
  assumes kinds: "kind_of a = kind_of b"
  shows "balanced (move_ref a b s) = balanced s"
proof (cases "finite (held s)")
  case False
  then show ?thesis by (simp add: balanced_def held_move_ref)
next
  case fin: True
  have ar: "acquired (move_ref a b s) = acquired s" "released (move_ref a b s) = released s"
    by (simp_all add: move_ref_def Let_def)
  have fin': "finite (held (move_ref a b s))"
    using fin by (simp add: held_move_ref)
  have key: "\<And>k. holding (move_ref a b s) k + leaked (move_ref a b s) k
                 = holding s k + leaked s k"
  proof -
    fix k
    show "holding (move_ref a b s) k + leaked (move_ref a b s) k = holding s k + leaked s k"
    proof (cases "b \<in> held s")
      case bh: True
      have lk: "leaked (move_ref a b s) = (leaked s)(kind_of b := leaked s (kind_of b) + 1)"
        using bh by (simp add: move_ref_def Let_def)
      show ?thesis
      proof (cases "a \<in> held s \<and> a \<noteq> b")
        case True
        then have h: "held (move_ref a b s) = held s - {a}"
          using bh by (auto simp: held_move_ref)
        from count_drop [OF fin, of a k] True kinds show ?thesis
          by (auto simp: holding_def h lk)
      next
        case False
        then have h: "held (move_ref a b s) = held s - {b}"
          by (auto simp: held_move_ref)
        from count_drop [OF fin bh, of k] show ?thesis
          by (auto simp: holding_def h lk)
      qed
    next
      case bn: False
      have lk: "leaked (move_ref a b s) = leaked s"
        using bn by (simp add: move_ref_def Let_def)
      show ?thesis
      proof (cases "a \<in> held s")
        case True
        with bn have ab: "a \<noteq> b" by auto
        have h: "held (move_ref a b s) = insert b (held s - {a})"
          using True ab by (simp add: held_move_ref)
        have f2: "finite (held s - {a})" using fin by simp
        have n2: "b \<notin> held s - {a}" using bn by simp
        from count_add [OF f2 n2, of k] count_drop [OF fin True, of k] kinds show ?thesis
          by (auto simp: holding_def h lk)
      next
        case False
        then have h: "held (move_ref a b s) = held s"
          using bn by (auto simp: held_move_ref)
        show ?thesis by (simp add: holding_def h lk)
      qed
    qed
  qed
  have "\<And>k. (acquired s k = released s k + holding (move_ref a b s) k + leaked (move_ref a b s) k)
           = (acquired s k = released s k + holding s k + leaked s k)"
    using key by (simp add: add.assoc)
  then show ?thesis
    using fin fin' by (simp add: balanced_def ar)
qed

subsection \<open>Every function keeps the books balanced\<close>

lemma balanced_fold_release [simp]: "balanced (fold release refs s) = balanced s"
  by (induction refs arbitrary: s) simp_all

lemma balanced_av_frame_unref [simp]: "balanced (av_frame_unref d h s) = balanced s"
  by (simp add: av_frame_unref_def)

lemma balanced_av_frame_free [simp]: "balanced (av_frame_free f d h s) = balanced s"
  by (simp add: av_frame_free_def)

lemma balanced_av_packet_free [simp]: "balanced (av_packet_free p d s) = balanced s"
  by (simp add: av_packet_free_def)

lemma balanced_avcodec_free_context [simp]:
  "balanced (avcodec_free_context c refs s) = balanced s"
  by (simp add: avcodec_free_context_def)

lemma balanced_init_filters_end [simp]: "balanced (init_filters_end s) = balanced s"
  by (simp add: init_filters_end_def Let_def)

lemma balanced_init_filters [simp]: "balanced (snd (init_filters A s)) = balanced s"
  by (simp add: init_filters_def Let_def)

lemma balanced_stage_input [simp]: "balanced (snd (stage_input A s)) = balanced s"
  by (simp add: stage_input_def Let_def)

lemma balanced_stage_decoder_alloc [simp]:
  "balanced (snd (stage_decoder_alloc A s)) = balanced s"
  by (simp add: stage_decoder_alloc_def Let_def)

lemma balanced_decoder_frames_pool [simp]:
  "balanced (snd (decoder_frames_pool A s)) = balanced s"
  by (simp add: decoder_frames_pool_def Let_def)

lemma balanced_stage_decoder_open [simp]:
  "balanced (snd (stage_decoder_open A s)) = balanced s"
  by (simp add: stage_decoder_open_def Let_def split_beta split: sum.splits)

lemma balanced_stage_output [simp]: "balanced (snd (stage_output A s)) = balanced s"
  by (simp add: stage_output_def Let_def)

lemma balanced_run_init_filters [simp]:
  "balanced (snd (run_init_filters A s)) = balanced s"
  by (simp add: run_init_filters_def split_beta split: bool.splits)

lemma balanced_stage_filters [simp]: "balanced (snd (stage_filters A s)) = balanced s"
  by (simp add: stage_filters_def Let_def)

lemma balanced_stage_encoder [simp]: "balanced (snd (stage_encoder A s)) = balanced s"
  by (simp add: stage_encoder_def Let_def balanced_move_ref)

lemma balanced_encode_packets [simp]: "balanced (snd (encode_packets ws s)) = balanced s"
  by (induction ws arbitrary: s) (simp_all add: Let_def)

lemma balanced_encode_write_frame [simp]:
  "balanced (snd (encode_write_frame ev fl s)) = balanced s"
  by (simp add: encode_write_frame_def Let_def split_beta split: bool.splits recv_end.splits)

lemma balanced_take_sink_frame [simp]: "balanced (take_sink_frame ev s) = balanced s"
  by (simp add: take_sink_frame_def Let_def)

lemma balanced_sink_loop [simp]: "balanced (snd (sink_loop evs e s)) = balanced s"
  by (induction evs arbitrary: s) (simp_all add: split_beta split: bool.splits)

lemma balanced_sink_loop_flush [simp]: "balanced (sink_loop_flush evs s) = balanced s"
  by (induction evs arbitrary: s) simp_all

lemma balanced_receive_frame [simp]: "balanced (receive_frame ev s) = balanced s"
  by (simp add: receive_frame_def Let_def)

lemma balanced_repair_frame [simp]: "balanced (repair_frame ev s) = balanced s"
  by (simp add: repair_frame_def)

lemma balanced_frame_loop [simp]: "balanced (snd (frame_loop evs e s)) = balanced s"
  by (induction evs arbitrary: s) (simp_all add: Let_def split_beta split: flow.splits)

lemma balanced_packet_loop [simp]: "balanced (packet_loop evs s) = balanced s"
  by (induction evs arbitrary: s) (simp_all add: Let_def split_beta split: flow.splits)

lemma balanced_flush_decoder [simp]: "balanced (flush_decoder A s) = balanced s"
  by (simp add: flush_decoder_def Let_def split: option.splits)

lemma balanced_transcode [simp]: "balanced (transcode A s) = balanced s"
  by (simp add: transcode_def Let_def)

lemma balanced_try_block [simp]: "balanced (snd (try_block A s)) = balanced s"
  by (simp add: try_block_def split_beta split: sum.splits)

lemma balanced_cleanup [simp]: "balanced (cleanup A s) = balanced s"
  by (simp add: cleanup_def Let_def)



subsection \<open>The loops give back what they take\<close>

lemma held_av_frame_unref [simp]: "held (av_frame_unref d h s) = held s - {d, h}"
  by (auto simp: av_frame_unref_def)

lemma leaked_av_frame_unref [simp]: "leaked (av_frame_unref d h s) = leaked s"
  by (simp add: av_frame_unref_def)


lemma leaked_av_packet_free [simp]: "leaked (av_packet_free p d s) = leaked s"
  by (simp add: av_packet_free_def)


lemma leaked_av_frame_free [simp]: "leaked (av_frame_free f d h s) = leaked s"
  by (simp add: av_frame_free_def)

lemma held_fold_release [simp]: "held (fold release refs s) = held s - set refs"
  by (induction refs arbitrary: s) auto

lemma leaked_fold_release [simp]: "leaked (fold release refs s) = leaked s"
  by (induction refs arbitrary: s) auto


lemma leaked_avcodec_free_context [simp]: "leaked (avcodec_free_context c refs s) = leaked s"
  by (simp add: avcodec_free_context_def)









lemma receive_frame_leaked [simp]: "leaked (receive_frame ev s) = leaked s"
  by (simp add: receive_frame_def Let_def leaked_acquire)


lemma repair_frame_leaked [simp]: "leaked (repair_frame ev s) = leaked s"
  by (simp add: repair_frame_def leaked_acquire)






subsection \<open>The stages of the try block\<close>







lemma no_leak_init_filters_end [simp]: "no_leak (init_filters_end s) = no_leak s"
  by (simp add: init_filters_end_def Let_def)





subsection \<open>The try block leaves only what the cleanup frees\<close>



subsection \<open>The cleanup empties a tidy state\<close>






end
